theory Spec2Isabelle
  imports Complex_Main "HOL-Library.Multiset"
begin

section \<open>JavaScript string helpers\<close>

text \<open>
  Strings are byte strings. \<open>toLowerCase\<close> maps the ASCII capitals to their small
  letters and leaves every other byte alone; \<open>trim\<close> strips the ASCII white space
  (tab, line feed, vertical tab, form feed, carriage return, space) from both ends.
  The Unicode part of the two JavaScript methods is outside the model.
\<close>

definition lowerChar :: "char \<Rightarrow> char" where
  "lowerChar c =
     (case map_of (zip ''ABCDEFGHIJKLMNOPQRSTUVWXYZ'' ''abcdefghijklmnopqrstuvwxyz'') c of
        Some l \<Rightarrow> l
      | None \<Rightarrow> c)"

definition toLowerCase :: "string \<Rightarrow> string" where
  "toLowerCase s = map lowerChar s"

fun startsWith :: "string \<Rightarrow> string \<Rightarrow> bool" where
  "startsWith s [] = True"
| "startsWith [] (t # ts) = False"
| "startsWith (c # cs) (t # ts) = (c = t \<and> startsWith cs ts)"

text \<open>\<open>s.includes(t)\<close>: \<open>t\<close> occurs in \<open>s\<close> as a contiguous substring.\<close>

fun str_includes :: "string \<Rightarrow> string \<Rightarrow> bool" where
  "str_includes [] t = (t = [])"
| "str_includes (c # cs) t = (startsWith (c # cs) t \<or> str_includes cs t)"

text \<open>\<open>xs.join(sep)\<close>\<close>

fun join :: "string \<Rightarrow> string list \<Rightarrow> string" where
  "join sep [] = []"
| "join sep [x] = x"
| "join sep (x # y # ys) = x @ sep @ join sep (y # ys)"

definition isSpace :: "char \<Rightarrow> bool" where
  "isSpace c = (let n = (of_char c :: nat) in (9 \<le> n \<and> n \<le> 13) \<or> n = 32)"

text \<open>\<open>\\d\<close>\<close>

definition isDigit :: "char \<Rightarrow> bool" where
  "isDigit c = (c \<in> set ''0123456789'')"

definition trim :: "string \<Rightarrow> string" where
  "trim s = rev (dropWhile isSpace (rev (dropWhile isSpace s)))"

text \<open>
  JavaScript truthiness of an optional string: \<open>undefined\<close>, \<open>null\<close> and the empty
  string are falsy.
\<close>

fun truthy :: "string option \<Rightarrow> bool" where
  "truthy None = False"
| "truthy (Some s) = (s \<noteq> [])"

text \<open>\<open>x || ''\<close> on an optional string.\<close>

fun orEmpty :: "string option \<Rightarrow> string" where
  "orEmpty None = []"
| "orEmpty (Some s) = s"

section \<open>Raw place records of the places source\<close>

record addressComponent =
  componentTypes :: "string list option"
  shortText :: "string option"
  longText :: "string option"

record photo =
  name :: "string option"
  widthPx :: "nat option"
  heightPx :: "nat option"

text \<open>A capability group (accessibility, parking, payment): named boolean flags.\<close>

type_synonym flags = "(string \<times> bool) list"

record place =
  placeId :: "string option"
  displayName :: "string option option"
  formattedAddress :: "string option"
  addressComponents :: "addressComponent list option"
  placeLocation :: "(real \<times> real) option"
  primaryType :: "string option"
  placeTypes :: "string list option"
  placeRating :: "real option"
  userRatingCount :: "nat option"
  currentOpeningHours :: "bool option option"
  regularOpeningHours :: "string list option option"
  nationalPhoneNumber :: "string option"
  internationalPhoneNumber :: "string option"
  websiteUri :: "string option"
  googleMapsUri :: "string option"
  businessStatus :: "string option"
  accessibilityOptions :: "flags option"
  parkingOptions :: "flags option"
  paymentOptions :: "flags option"
  priceLevel :: "string option"
  photos :: "photo list option"

text \<open>
  \<open>displayName\<close> is the optional object \<open>{text}\<close>: \<open>Some None\<close> is an object without
  text. \<open>currentOpeningHours\<close> is the optional object \<open>{openNow}\<close> and
  \<open>regularOpeningHours\<close> the optional object \<open>{weekdayDescriptions}\<close>, in the same way.
  \<open>placeId\<close>, \<open>placeTypes\<close>, \<open>placeLocation\<close> (latitude, longitude) and
  \<open>placeRating\<close> are the fields \<open>id\<close>, \<open>types\<close>, \<open>location\<close> and \<open>rating\<close> of the
  place; the plain names belong to the identity function and to the client's clinic
  record below.
\<close>

section \<open>Address component parser (collectClinicDataComprehensive)\<close>

text \<open>
  The object the parser returns; its fields \<open>state_code\<close>, \<open>city\<close>, \<open>postal_code\<close>
  and \<open>country_code\<close> carry the prefix of the variable \<open>ac\<close> that holds it in the source.
\<close>

record parsedAddress =
  ac_state_code :: "string option"
  ac_city :: "string option"
  ac_postal_code :: "string option"
  ac_country_code :: "string option"

text \<open>\<open>components?.find(c => c.types?.includes(type))\<close>\<close>

definition getComponent :: "addressComponent list \<Rightarrow> string \<Rightarrow> addressComponent option" where
  "getComponent components ty =
     find (\<lambda>c. case componentTypes c of None \<Rightarrow> False | Some ts \<Rightarrow> ty \<in> set ts) components"

text \<open>\<open>a ?? b\<close> on optional values.\<close>

fun orElse :: "'a option \<Rightarrow> 'a option \<Rightarrow> 'a option" where
  "orElse (Some x) b = Some x"
| "orElse None b = b"

definition parseAddressComponents :: "addressComponent list \<Rightarrow> parsedAddress" where
  "parseAddressComponents components =
     \<lparr> ac_state_code = Option.bind (getComponent components ''administrative_area_level_1'') shortText,
       ac_city = orElse (Option.bind (getComponent components ''locality'') longText)
                     (Option.bind (getComponent components ''postal_town'') longText),
       ac_postal_code = Option.bind (getComponent components ''postal_code'') longText,
       ac_country_code = Option.bind (getComponent components ''country'') shortText \<rparr>"

section \<open>Dermatology classifier (collectClinicDataComprehensive)\<close>

text \<open>
  The table \<open>US_STATES\<close> of the script, in the order of the source (\<open>stateInfoName\<close> is
  the field \<open>name\<close>).
\<close>

record bounds =
  minLat :: real
  maxLat :: real
  minLng :: real
  maxLng :: real

record StateInfo =
  code :: string
  stateInfoName :: string
  bounds :: bounds
  majorCities :: "string list"

definition US_STATES :: "(string \<times> StateInfo) list" where
  "US_STATES =
     [
      (''CA'', \<lparr> code = ''CA'', stateInfoName = ''California'',
          bounds = \<lparr> minLat = 32.5, maxLat = 42.0, minLng = -124.5, maxLng = -114.1 \<rparr>,
          majorCities = [
            ''Los Angeles'', ''San Francisco'', ''San Diego'', ''San Jose'', ''Sacramento'',
            ''Oakland'', ''Fresno'', ''Long Beach'', ''Bakersfield'', ''Anaheim''] \<rparr>),
      (''TX'', \<lparr> code = ''TX'', stateInfoName = ''Texas'',
          bounds = \<lparr> minLat = 25.8, maxLat = 36.5, minLng = -106.7, maxLng = -93.5 \<rparr>,
          majorCities = [
            ''Houston'', ''Dallas'', ''Austin'', ''San Antonio'', ''Fort Worth'', ''El Paso'',
            ''Arlington'', ''Corpus Christi'', ''Plano'', ''Lubbock''] \<rparr>),
      (''FL'', \<lparr> code = ''FL'', stateInfoName = ''Florida'',
          bounds = \<lparr> minLat = 24.5, maxLat = 31.0, minLng = -87.6, maxLng = -80.0 \<rparr>,
          majorCities = [
            ''Miami'', ''Tampa'', ''Orlando'', ''Jacksonville'', ''St. Petersburg'',
            ''Hialeah'', ''Tallahassee'', ''Fort Lauderdale'', ''Port St. Lucie'',
            ''Cape Coral''] \<rparr>),
      (''NY'', \<lparr> code = ''NY'', stateInfoName = ''New York'',
          bounds = \<lparr> minLat = 40.5, maxLat = 45.0, minLng = -79.8, maxLng = -71.9 \<rparr>,
          majorCities = [
            ''New York City'', ''Buffalo'', ''Rochester'', ''Syracuse'', ''Albany'',
            ''Yonkers'', ''New Rochelle'', ''Mount Vernon'', ''Schenectady'', ''Utica''] \<rparr>),
      (''PA'', \<lparr> code = ''PA'', stateInfoName = ''Pennsylvania'',
          bounds = \<lparr> minLat = 39.7, maxLat = 42.3, minLng = -80.5, maxLng = -74.7 \<rparr>,
          majorCities = [
            ''Philadelphia'', ''Pittsburgh'', ''Allentown'', ''Erie'', ''Reading'',
            ''Scranton'', ''Bethlehem'', ''Lancaster'', ''Harrisburg'', ''Altoona''] \<rparr>),
      (''IL'', \<lparr> code = ''IL'', stateInfoName = ''Illinois'',
          bounds = \<lparr> minLat = 37.0, maxLat = 42.5, minLng = -91.5, maxLng = -87.5 \<rparr>,
          majorCities = [
            ''Chicago'', ''Aurora'', ''Naperville'', ''Joliet'', ''Rockford'', ''Springfield'',
            ''Peoria'', ''Elgin'', ''Waukegan'', ''Champaign''] \<rparr>),
      (''OH'', \<lparr> code = ''OH'', stateInfoName = ''Ohio'',
          bounds = \<lparr> minLat = 38.4, maxLat = 42.3, minLng = -84.8, maxLng = -80.5 \<rparr>,
          majorCities = [
            ''Columbus'', ''Cleveland'', ''Cincinnati'', ''Toledo'', ''Akron'', ''Dayton'',
            ''Parma'', ''Canton'', ''Youngstown'', ''Lorain''] \<rparr>),
      (''GA'', \<lparr> code = ''GA'', stateInfoName = ''Georgia'',
          bounds = \<lparr> minLat = 30.4, maxLat = 35.0, minLng = -85.6, maxLng = -80.8 \<rparr>,
          majorCities = [
            ''Atlanta'', ''Augusta'', ''Columbus'', ''Macon'', ''Savannah'', ''Athens'',
            ''Sandy Springs'', ''Roswell'', ''Johns Creek'', ''Albany''] \<rparr>),
      (''NC'', \<lparr> code = ''NC'', stateInfoName = ''North Carolina'',
          bounds = \<lparr> minLat = 33.8, maxLat = 36.6, minLng = -84.3, maxLng = -75.4 \<rparr>,
          majorCities = [
            ''Charlotte'', ''Raleigh'', ''Greensboro'', ''Durham'', ''Winston-Salem'',
            ''Fayetteville'', ''Cary'', ''Wilmington'', ''High Point'', ''Asheville''] \<rparr>),
      (''MI'', \<lparr> code = ''MI'', stateInfoName = ''Michigan'',
          bounds = \<lparr> minLat = 41.7, maxLat = 48.3, minLng = -90.4, maxLng = -82.4 \<rparr>,
          majorCities = [
            ''Detroit'', ''Grand Rapids'', ''Warren'', ''Sterling Heights'', ''Ann Arbor'',
            ''Lansing'', ''Flint'', ''Dearborn'', ''Livonia'', ''Troy''] \<rparr>)
     ]"

definition US_STATES_keys :: "string list" where
  "US_STATES_keys = map fst US_STATES"

definition VALID_US_STATES :: "string set" where
  "VALID_US_STATES = set US_STATES_keys"

text \<open>
  The list \<open>VALID_US_STATES\<close> of the cleanup script and of the clinic page: the fifty
  states and DC.
\<close>

definition ALL_US_STATE_CODES :: "string list" where
  "ALL_US_STATE_CODES =
     [''AL'',''AK'',''AZ'',''AR'',''CA'',''CO'',''CT'',''DE'',''FL'',''GA'',''HI'',''ID'',''IL'',''IN'',
      ''IA'',''KS'',''KY'',''LA'',''ME'',''MD'',''MA'',''MI'',''MN'',''MS'',''MO'',''MT'',''NE'',''NV'',
      ''NH'',''NJ'',''NM'',''NY'',''NC'',''ND'',''OH'',''OK'',''OR'',''PA'',''RI'',''SC'',''SD'',''TN'',
      ''TX'',''UT'',''VT'',''VA'',''WA'',''WV'',''WI'',''WY'',''DC'']"

text \<open>The global counters of the script.\<close>

record counters =
  TOTAL_REQUESTS :: nat
  REJECTED_NON_US :: nat
  REJECTED_NON_DERM :: nat

definition excludeTerms :: "string list" where
  "excludeTerms = [''dental'', ''dentist'', ''orthodont'', ''veterinary'', ''animal'', ''pet'',
                   ''massage'', ''spa resort'', ''nail salon'']"

definition coreTerms :: "string list" where
  "coreTerms = [''dermatology'', ''dermatologist'', ''dermatologic'']"

definition relatedTerms :: "string list" where
  "relatedTerms = [''skin clinic'', ''skin center'', ''skin care clinic'',
                   ''skin doctor'', ''skin specialist'', ''skin health'',
                   ''medical dermatology'', ''cosmetic dermatology'',
                   ''mohs surgery'', ''skin cancer'']"

definition placeName :: "place \<Rightarrow> string" where
  "placeName p = toLowerCase (orEmpty (case displayName p of None \<Rightarrow> None | Some t \<Rightarrow> t))"

definition placeWebsite :: "place \<Rightarrow> string" where
  "placeWebsite p = toLowerCase (orEmpty (websiteUri p))"

definition placeTypesText :: "place \<Rightarrow> string" where
  "placeTypesText p =
     toLowerCase (join '' '' (case placeTypes p of None \<Rightarrow> [] | Some ts \<Rightarrow> ts))"

definition searchText :: "place \<Rightarrow> string" where
  "searchText p = placeName p @ '' '' @ placeWebsite p @ '' '' @ placeTypesText p"

definition placeAddress :: "place \<Rightarrow> parsedAddress" where
  "placeAddress p =
     parseAddressComponents (case addressComponents p of None \<Rightarrow> [] | Some cs \<Rightarrow> cs)"

text \<open>The two guards of the US validation, as the source writes them.\<close>

definition foreignCountry :: "parsedAddress \<Rightarrow> bool" where
  "foreignCountry ac = (truthy (ac_country_code ac) \<and> ac_country_code ac \<noteq> Some ''US'')"

definition invalidState :: "parsedAddress \<Rightarrow> bool" where
  "invalidState ac =
     (\<not> truthy (ac_state_code ac) \<or>
      (case ac_state_code ac of None \<Rightarrow> True | Some s \<Rightarrow> s \<notin> VALID_US_STATES))"

definition isDermatologyClinic ::
  "'a counters_scheme \<Rightarrow> place \<Rightarrow> bool \<times> 'a counters_scheme" where
  "isDermatologyClinic cs p =
     (let nm = placeName p; website = placeWebsite p; tys = placeTypesText p;
          txt = searchText p; ac = placeAddress p
      in if foreignCountry ac then (False, cs\<lparr>REJECTED_NON_US := REJECTED_NON_US cs + 1\<rparr>)
         else if invalidState ac then (False, cs\<lparr>REJECTED_NON_US := REJECTED_NON_US cs + 1\<rparr>)
         else if list_ex (str_includes txt) excludeTerms
           then (False, cs\<lparr>REJECTED_NON_DERM := REJECTED_NON_DERM cs + 1\<rparr>)
         else if str_includes tys ''skin_care_clinic'' then (True, cs)
         else if list_ex (str_includes txt) coreTerms then (True, cs)
         else if list_ex (\<lambda>t. str_includes nm t \<or> str_includes website t) relatedTerms
           then (True, cs)
         else if (str_includes txt ''derm'' \<or> (str_includes nm ''skin'' \<or> str_includes website ''skin'')) \<and>
                 (str_includes tys ''doctor'' \<or> str_includes tys ''health'' \<or>
                  str_includes txt ''medical'' \<or> str_includes txt ''clinic'')
           then (True, cs)
         else (False, cs\<lparr>REJECTED_NON_DERM := REJECTED_NON_DERM cs + 1\<rparr>))"

section \<open>Place transformer (collectClinicDataComprehensive)\<close>

text \<open>
  The object \<open>transformPlace\<close> returns. Its fields carry the prefix \<open>n_\<close> (normalized):
  the client's clinic record below has the same field names.
\<close>

record openingHours =
  oh_open_now :: "bool option"
  oh_weekday_text :: "string list"

record normalizedClinic =
  n_place_id :: "string option"
  n_display_name :: "string option"
  n_formatted_address :: "string option"
  n_location :: "(real \<times> real) option"
  n_primary_type :: "string option"
  n_types :: "string list"
  n_rating :: "real option"
  n_user_rating_count :: "nat option"
  n_current_open_now :: "bool option"
  n_phone :: "string option"
  n_international_phone_number :: "string option"
  n_opening_hours :: "openingHours option"
  n_website :: "string option"
  n_google_maps_uri :: "string option"
  n_business_status :: "string option"
  n_accessibility_options :: "flags option"
  n_parking_options :: "flags option"
  n_payment_options :: "flags option"
  n_price_level :: "string option"
  n_city :: "string option"
  n_state_code :: "string option"
  n_postal_code :: "string option"
  n_photos :: "photo list"
  n_last_fetched_at :: string

text \<open>\<open>place.currentOpeningHours?.openNow ?? null\<close>\<close>

definition openNow :: "place \<Rightarrow> bool option" where
  "openNow p = (case currentOpeningHours p of None \<Rightarrow> None | Some o_n \<Rightarrow> o_n)"

text \<open>
  \<open>today\<close> is \<open>new Date().toISOString().slice(0, 10)\<close>, the date of the run. \<open>None\<close> is
  the \<open>null\<close> the function returns; no operation of the function can throw on a
  place of this type.
\<close>

definition transformPlace :: "string \<Rightarrow> place \<Rightarrow> normalizedClinic option" where
  "transformPlace today p =
     (let ac = placeAddress p
      in if foreignCountry ac then None
         else if invalidState ac then None
         else Some
           \<lparr> n_place_id = placeId p,
             n_display_name = (case displayName p of None \<Rightarrow> None | Some t \<Rightarrow> t),
             n_formatted_address = formattedAddress p,
             n_location = placeLocation p,
             n_primary_type = primaryType p,
             n_types = (case placeTypes p of None \<Rightarrow> [] | Some ts \<Rightarrow> ts),
             n_rating = placeRating p,
             n_user_rating_count = userRatingCount p,
             n_current_open_now = openNow p,
             n_phone = nationalPhoneNumber p,
             n_international_phone_number = internationalPhoneNumber p,
             n_opening_hours =
               (case regularOpeningHours p of
                  None \<Rightarrow> None
                | Some wd \<Rightarrow>
                    Some \<lparr> oh_open_now = openNow p,
                           oh_weekday_text = (case wd of None \<Rightarrow> [] | Some ds \<Rightarrow> ds) \<rparr>),
             n_website = websiteUri p,
             n_google_maps_uri = googleMapsUri p,
             n_business_status = businessStatus p,
             n_accessibility_options = accessibilityOptions p,
             n_parking_options = parkingOptions p,
             n_payment_options = paymentOptions p,
             n_price_level = priceLevel p,
             n_city = ac_city ac,
             n_state_code = ac_state_code ac,
             n_postal_code = ac_postal_code ac,
             n_photos =
               map (\<lambda>ph. \<lparr> name = name ph, widthPx = widthPx ph, heightPx = heightPx ph \<rparr>)
                 (case photos p of None \<Rightarrow> [] | Some phs \<Rightarrow> phs),
             n_last_fetched_at = today \<rparr>)"

section \<open>Requests of the comprehensive script\<close>

text \<open>
  The settings the script reads from the environment: \<open>PLACES_MAX_REQUESTS\<close>,
  \<open>PLACES_QPS\<close> and \<open>PLACES_NEXT_PAGE_DELAY_MS\<close>, as natural numbers.
\<close>

record config =
  MAX_REQUESTS :: nat
  QPS :: nat
  NEXT_PAGE_DELAY_MS :: nat

text \<open>\<open>Math.ceil(1000 / QPS)\<close>, for a positive \<open>QPS\<close>.\<close>

definition requestDelay :: "config \<Rightarrow> nat" where
  "requestDelay cfg = (1000 + QPS cfg - 1) div QPS cfg"

text \<open>
  What a run does to the outside, in order: a pause, a call of the places source, a file
  written. The run is sequential, so the list of events is its whole observable course.
\<close>

datatype event =
    Sleep nat
  | SearchNearby real real
  | SearchText string "string option"
  | GetPlace "string option"
  | WriteFile string "normalizedClinic list"

record world = counters +
  trace :: "event list"

text \<open>
  The answer of the places source to a search: \<open>fetch\<close> rejects with a message (a body
  that cannot be read counts as such), or the status is not ok, or the body carries
  \<open>places\<close> and \<open>nextPageToken\<close>. The answer to a detail request carries a place. The
  source is a function from the number of the request (\<open>TOTAL_REQUESTS\<close> once it is
  counted) to the answer: the run is sequential, so this covers every behaviour of the
  source. The source of the details takes the identifier that is asked for as well.
\<close>

datatype searchResponse = Rejected string | Status nat | Places "place list option" "string option"

datatype detailResponse = DetailRejected string | DetailStatus nat | Detail place

text \<open>
  An error is its message. The message of the budget error is written without the sign
  that opens it in the source; \<open>isLimit\<close> is the test \<open>error.message.includes('Request limit')\<close>
  of the handlers.
\<close>

definition limitMessage :: string where
  "limitMessage = ''Request limit reached''"

definition isLimit :: "string \<Rightarrow> bool" where
  "isLimit msg = str_includes msg ''Request limit''"

definition sleep :: "nat \<Rightarrow> world \<Rightarrow> world" where
  "sleep ms w = w\<lparr>trace := trace w @ [Sleep ms]\<rparr>"

definition checkRequestLimit :: "config \<Rightarrow> world \<Rightarrow> (string + unit) \<times> world" where
  "checkRequestLimit cfg w =
     (if TOTAL_REQUESTS w \<ge> MAX_REQUESTS cfg then (Inl limitMessage, w)
      else (Inr (), sleep (requestDelay cfg) (w\<lparr>TOTAL_REQUESTS := TOTAL_REQUESTS w + 1\<rparr>)))"

text \<open>\<open>places.filter(isDermatologyClinic)\<close>, the counters threaded through.\<close>

fun filterDerm :: "place list \<Rightarrow> 'a counters_scheme \<Rightarrow> place list \<times> 'a counters_scheme" where
  "filterDerm [] cs = ([], cs)"
| "filterDerm (p # ps) cs =
     (let (ok, cs1) = isDermatologyClinic cs p;
          (rest, cs2) = filterDerm ps cs1
      in (if ok then p # rest else rest, cs2))"

text \<open>\<open>(data.places || []).filter(isDermatologyClinic).map(transformPlace).filter(c => c !== null)\<close>\<close>

definition acceptedClinics ::
  "string \<Rightarrow> place list option \<Rightarrow> 'a counters_scheme \<Rightarrow> normalizedClinic list \<times> 'a counters_scheme" where
  "acceptedClinics today ps cs =
     (let (kept, cs1) = filterDerm (case ps of None \<Rightarrow> [] | Some l \<Rightarrow> l) cs
      in (List.map_filter (transformPlace today) kept, cs1))"

subsection \<open>City text search\<close>

text \<open>
  One pass through the body of the \<open>do ... while\<close> loop of \<open>textSearchCity\<close>: the budget
  check, the request (with the page token when it is truthy), the classification of the
  places, and the pause when the answer has a next page token. It returns the token and
  the clinics of the page.
\<close>

definition fetchPage ::
  "config \<Rightarrow> (nat \<Rightarrow> searchResponse) \<Rightarrow> string \<Rightarrow> string \<Rightarrow> string option \<Rightarrow> world \<Rightarrow>
   (string + string option \<times> normalizedClinic list) \<times> world" where
  "fetchPage cfg src today query pageToken w =
     (case checkRequestLimit cfg w of
        (Inl e, w1) \<Rightarrow> (Inl e, w1)
      | (Inr u, w1) \<Rightarrow>
          (let w2 = w1\<lparr>trace := trace w1 @
                       [SearchText query (if truthy pageToken then pageToken else None)]\<rparr>
           in case src (TOTAL_REQUESTS w2) of
                Rejected msg \<Rightarrow> (Inl msg, w2)
              | Status st \<Rightarrow> (Inl ''Text search failed'', w2)
              | Places ps next \<Rightarrow>
                  (let (places, w3) = acceptedClinics today ps w2
                   in (Inr (next, places),
                       if truthy next then sleep (NEXT_PAGE_DELAY_MS cfg) w3 else w3))))"

text \<open>
  The loop of one query: \<open>pages\<close> pages are fetched so far; the loop goes on while the
  token is truthy and fewer than three pages have been fetched.
\<close>

function pageLoop ::
  "config \<Rightarrow> (nat \<Rightarrow> searchResponse) \<Rightarrow> string \<Rightarrow> string \<Rightarrow> string option \<Rightarrow> nat \<Rightarrow>
   normalizedClinic list \<Rightarrow> world \<Rightarrow> (string + normalizedClinic list) \<times> world" where
  "pageLoop cfg src today query pageToken pages allClinics w =
     (case fetchPage cfg src today query pageToken w of
        (Inl e, w1) \<Rightarrow> (Inl e, w1)
      | (Inr (next, places), w1) \<Rightarrow>
          if truthy next \<and> pages + 1 < 3
          then pageLoop cfg src today query next (pages + 1) (allClinics @ places) w1
          else (Inr (allClinics @ places), w1))"
  by pat_completeness auto
termination
  by (relation "measure (\<lambda>(cfg, src, today, query, pageToken, pages, allClinics, w). 3 - pages)") auto

text \<open>The loop over the queries; an error of a page ends it.\<close>

fun queryLoop ::
  "config \<Rightarrow> (nat \<Rightarrow> searchResponse) \<Rightarrow> string \<Rightarrow> string list \<Rightarrow> normalizedClinic list \<Rightarrow> world \<Rightarrow>
   (string + normalizedClinic list) \<times> world" where
  "queryLoop cfg src today [] allClinics w = (Inr allClinics, w)"
| "queryLoop cfg src today (query # queries) allClinics w =
     (case pageLoop cfg src today query None 0 allClinics w of
        (Inl e, w1) \<Rightarrow> (Inl e, w1)
      | (Inr allClinics1, w1) \<Rightarrow> queryLoop cfg src today queries allClinics1 w1)"

definition cityQueries :: "string \<Rightarrow> string \<Rightarrow> string list" where
  "cityQueries cityName stateCode =
     [''dermatology clinic in '' @ cityName @ '' '' @ stateCode,
      ''dermatologist '' @ cityName @ '' '' @ stateCode,
      ''skin clinic '' @ cityName @ '' '' @ stateCode]"

definition textSearchCity ::
  "config \<Rightarrow> (nat \<Rightarrow> searchResponse) \<Rightarrow> string \<Rightarrow> string \<Rightarrow> string \<Rightarrow> world \<Rightarrow>
   (string + normalizedClinic list) \<times> world" where
  "textSearchCity cfg src today cityName stateCode w =
     queryLoop cfg src today (cityQueries cityName stateCode) [] w"

subsection \<open>Grid search\<close>

definition nearbySearchAtPoint ::
  "config \<Rightarrow> (nat \<Rightarrow> searchResponse) \<Rightarrow> string \<Rightarrow> real \<Rightarrow> real \<Rightarrow> world \<Rightarrow>
   (string + normalizedClinic list) \<times> world" where
  "nearbySearchAtPoint cfg src today lat lng w =
     (case checkRequestLimit cfg w of
        (Inl e, w1) \<Rightarrow> (Inl e, w1)
      | (Inr u, w1) \<Rightarrow>
          (let w2 = w1\<lparr>trace := trace w1 @ [SearchNearby lat lng]\<rparr>
           in case src (TOTAL_REQUESTS w2) of
                Rejected msg \<Rightarrow> (Inl msg, w2)
              | Status st \<Rightarrow> (Inl ''Nearby search failed'', w2)
              | Places ps next \<Rightarrow>
                  (let (found, w3) = acceptedClinics today ps w2 in (Inr found, w3))))"

text \<open>
  A \<open>Set\<close> keeps its elements in the order they were first added: a list without
  repetition. \<open>setAdd\<close> is \<open>add\<close>; an identifier may be \<open>null\<close>.
\<close>

definition setAdd :: "'a \<Rightarrow> 'a list \<Rightarrow> 'a list" where
  "setAdd x xs = (if x \<in> set xs then xs else xs @ [x])"

text \<open>
  The two loops of \<open>gridSearchForState\<close> over the points of the lattice, here the list
  \<open>points\<close> in the order the loops visit them (the floating-point stepping that makes the
  points is outside the model). An error that is not the budget error is logged and the
  loop goes on.
\<close>

fun gridLoop ::
  "config \<Rightarrow> (nat \<Rightarrow> searchResponse) \<Rightarrow> string \<Rightarrow> (real \<times> real) list \<Rightarrow>
   string option list \<Rightarrow> world \<Rightarrow> (string + string option list) \<times> world" where
  "gridLoop cfg src today [] clinicIds w = (Inr clinicIds, w)"
| "gridLoop cfg src today (pt # points) clinicIds w =
     (case nearbySearchAtPoint cfg src today (fst pt) (snd pt) w of
        (Inl e, w1) \<Rightarrow>
          if isLimit e then (Inl e, w1) else gridLoop cfg src today points clinicIds w1
      | (Inr found, w1) \<Rightarrow>
          gridLoop cfg src today points (fold setAdd (map n_place_id found) clinicIds) w1)"

definition gridSearchForState ::
  "config \<Rightarrow> (nat \<Rightarrow> searchResponse) \<Rightarrow> string \<Rightarrow> (bounds \<Rightarrow> (real \<times> real) list) \<Rightarrow>
   StateInfo \<Rightarrow> world \<Rightarrow> (string + string option list) \<times> world" where
  "gridSearchForState cfg src today grid stateInfo w =
     gridLoop cfg src today (grid (bounds stateInfo)) [] w"

subsection \<open>City search of a state\<close>

fun cityLoop ::
  "config \<Rightarrow> (nat \<Rightarrow> searchResponse) \<Rightarrow> string \<Rightarrow> string \<Rightarrow> string list \<Rightarrow>
   string option list \<Rightarrow> world \<Rightarrow> (string + string option list) \<times> world" where
  "cityLoop cfg src today stateCode [] clinicIds w = (Inr clinicIds, w)"
| "cityLoop cfg src today stateCode (cityName # rest) clinicIds w =
     (case textSearchCity cfg src today cityName stateCode w of
        (Inl e, w1) \<Rightarrow>
          if isLimit e then (Inl e, w1) else cityLoop cfg src today stateCode rest clinicIds w1
      | (Inr found, w1) \<Rightarrow>
          cityLoop cfg src today stateCode rest (fold setAdd (map n_place_id found) clinicIds) w1)"

definition citySearchForState ::
  "config \<Rightarrow> (nat \<Rightarrow> searchResponse) \<Rightarrow> string \<Rightarrow> StateInfo \<Rightarrow> world \<Rightarrow>
   (string + string option list) \<times> world" where
  "citySearchForState cfg src today stateInfo w =
     cityLoop cfg src today (code stateInfo) (majorCities stateInfo) [] w"

subsection \<open>Collection of a state\<close>

text \<open>
  The loop that fetches the details of every identifier. A request that fails, a place
  the classifier rejects and a place the transformer returns \<open>null\<close> for are skipped;
  only the budget error leaves the loop.
\<close>

fun detailLoop ::
  "config \<Rightarrow> (string option \<Rightarrow> nat \<Rightarrow> detailResponse) \<Rightarrow> string \<Rightarrow> string option list \<Rightarrow>
   normalizedClinic list \<Rightarrow> world \<Rightarrow> (string + normalizedClinic list) \<times> world" where
  "detailLoop cfg dsrc today [] found w = (Inr found, w)"
| "detailLoop cfg dsrc today (pid # rest) found w =
     (case checkRequestLimit cfg w of
        (Inl e, w1) \<Rightarrow>
          if isLimit e then (Inl e, w1) else detailLoop cfg dsrc today rest found w1
      | (Inr u, w1) \<Rightarrow>
          (let w2 = w1\<lparr>trace := trace w1 @ [GetPlace pid]\<rparr>
           in case dsrc pid (TOTAL_REQUESTS w2) of
                DetailRejected msg \<Rightarrow>
                  if isLimit msg then (Inl msg, w2) else detailLoop cfg dsrc today rest found w2
              | DetailStatus st \<Rightarrow> detailLoop cfg dsrc today rest found w2
              | Detail p \<Rightarrow>
                  (let (ok, w3) = isDermatologyClinic w2 p
                   in if ok
                      then (case transformPlace today p of
                              None \<Rightarrow> detailLoop cfg dsrc today rest found w3
                            | Some c \<Rightarrow> detailLoop cfg dsrc today rest (found @ [c]) w3)
                      else detailLoop cfg dsrc today rest found w3)))"

text \<open>
  The identifiers of the two strategies merged into \<open>allClinicIds\<close>: those of the grid
  search, then those of the city search.
\<close>

definition mergeIds :: "string option list \<Rightarrow> string option list \<Rightarrow> string option list" where
  "mergeIds gridIds cityIds = fold setAdd cityIds (fold setAdd gridIds [])"

text \<open>
  \<open>collectStateData\<close> of the comprehensive script. A strategy that fails with another
  error than the budget error adds no identifier. The file of the state is written at
  the end, so a budget error leaves without it.
\<close>

definition collectStateData ::
  "config \<Rightarrow> (nat \<Rightarrow> searchResponse) \<Rightarrow> (string option \<Rightarrow> nat \<Rightarrow> detailResponse) \<Rightarrow> string \<Rightarrow>
   (bounds \<Rightarrow> (real \<times> real) list) \<Rightarrow> string \<Rightarrow> world \<Rightarrow> (string + unit) \<times> world" where
  "collectStateData cfg src dsrc today grid stateCode w =
     (case map_of US_STATES stateCode of
        None \<Rightarrow> (Inr (), w)
      | Some stateInfo \<Rightarrow>
          (case gridSearchForState cfg src today grid stateInfo w of
             (Inl e, w1) \<Rightarrow>
               if isLimit e then (Inl e, w1)
               else
                 (case citySearchForState cfg src today stateInfo w1 of
                    (Inl e2, w2) \<Rightarrow>
                      if isLimit e2 then (Inl e2, w2)
                      else
                        (case detailLoop cfg dsrc today (mergeIds [] []) [] w2 of
                           (Inl e3, w3) \<Rightarrow> (Inl e3, w3)
                         | (Inr found, w3) \<Rightarrow>
                             (Inr (), w3\<lparr>trace := trace w3 @
                                [WriteFile (toLowerCase stateCode @ ''.json'') found]\<rparr>))
                  | (Inr cityIds, w2) \<Rightarrow>
                      (case detailLoop cfg dsrc today (mergeIds [] cityIds) [] w2 of
                         (Inl e3, w3) \<Rightarrow> (Inl e3, w3)
                       | (Inr found, w3) \<Rightarrow>
                           (Inr (), w3\<lparr>trace := trace w3 @
                              [WriteFile (toLowerCase stateCode @ ''.json'') found]\<rparr>)))
           | (Inr gridIds, w1) \<Rightarrow>
               (case citySearchForState cfg src today stateInfo w1 of
                  (Inl e2, w2) \<Rightarrow>
                    if isLimit e2 then (Inl e2, w2)
                    else
                      (case detailLoop cfg dsrc today (mergeIds gridIds []) [] w2 of
                         (Inl e3, w3) \<Rightarrow> (Inl e3, w3)
                       | (Inr found, w3) \<Rightarrow>
                           (Inr (), w3\<lparr>trace := trace w3 @
                              [WriteFile (toLowerCase stateCode @ ''.json'') found]\<rparr>))
                | (Inr cityIds, w2) \<Rightarrow>
                    (case detailLoop cfg dsrc today (mergeIds gridIds cityIds) [] w2 of
                       (Inl e3, w3) \<Rightarrow> (Inl e3, w3)
                     | (Inr found, w3) \<Rightarrow>
                         (Inr (), w3\<lparr>trace := trace w3 @
                            [WriteFile (toLowerCase stateCode @ ''.json'') found]\<rparr>)))))"

text \<open>
  The loop of \<open>main\<close> over the states to process: an unknown code is skipped, an error of
  a state is logged, and the budget error ends the loop.
\<close>

fun mainLoop ::
  "config \<Rightarrow> (nat \<Rightarrow> searchResponse) \<Rightarrow> (string option \<Rightarrow> nat \<Rightarrow> detailResponse) \<Rightarrow> string \<Rightarrow>
   (bounds \<Rightarrow> (real \<times> real) list) \<Rightarrow> string list \<Rightarrow> world \<Rightarrow> world" where
  "mainLoop cfg src dsrc today grid [] w = w"
| "mainLoop cfg src dsrc today grid (stateCode # rest) w =
     (case map_of US_STATES stateCode of
        None \<Rightarrow> mainLoop cfg src dsrc today grid rest w
      | Some stateInfo \<Rightarrow>
          (case collectStateData cfg src dsrc today grid stateCode w of
             (Inl e, w1) \<Rightarrow> if isLimit e then w1 else mainLoop cfg src dsrc today grid rest w1
           | (Inr u, w1) \<Rightarrow> mainLoop cfg src dsrc today grid rest w1))"

section \<open>The batch script (collectAllStates)\<close>

text \<open>
  The names of this script that the comprehensive script has too carry the suffix
  \<open>_all\<close>. The table \<open>ALL_STATES\<close>, in the order of the source (\<open>stateName\<close> is the field
  \<open>name\<close>):
\<close>

record stateCities =
  stateName :: string
  cities :: "string list"

definition ALL_STATES :: "(string \<times> stateCities) list" where
  "ALL_STATES =
     [
      (''AL'', \<lparr> stateName = ''Alabama'', cities = [''Birmingham'', ''Montgomery'',
          ''Mobile'', ''Huntsville'', ''Tuscaloosa''] \<rparr>),
      (''AK'', \<lparr> stateName = ''Alaska'', cities = [''Anchorage'', ''Fairbanks'',
          ''Juneau'', ''Wasilla'', ''Sitka''] \<rparr>),
      (''AZ'', \<lparr> stateName = ''Arizona'', cities = [''Phoenix'', ''Tucson'', ''Mesa'',
          ''Chandler'', ''Scottsdale'', ''Glendale'', ''Tempe''] \<rparr>),
      (''AR'', \<lparr> stateName = ''Arkansas'', cities = [''Little Rock'', ''Fort Smith'',
          ''Fayetteville'', ''Springdale'', ''Jonesboro''] \<rparr>),
      (''CA'', \<lparr> stateName = ''California'', cities = [''Los Angeles'',
          ''San Francisco'', ''San Diego'', ''San Jose'', ''Sacramento'', ''Oakland'',
          ''Fresno'', ''Long Beach'', ''Bakersfield'', ''Anaheim'', ''Santa Ana'',
          ''Riverside'', ''Stockton'', ''Irvine'', ''Chula Vista'', ''Fremont'',
          ''San Bernardino'', ''Modesto'', ''Fontana'', ''Oxnard'', ''Moreno Valley'',
          ''Huntington Beach'', ''Glendale'', ''Santa Clarita'', ''Garden Grove''] \<rparr>),
      (''CO'', \<lparr> stateName = ''Colorado'', cities = [''Denver'', ''Colorado Springs'',
          ''Aurora'', ''Fort Collins'', ''Lakewood'', ''Thornton'', ''Boulder''] \<rparr>),
      (''CT'', \<lparr> stateName = ''Connecticut'', cities = [''Bridgeport'', ''New Haven'',
          ''Hartford'', ''Stamford'', ''Waterbury''] \<rparr>),
      (''DE'', \<lparr> stateName = ''Delaware'', cities = [''Wilmington'', ''Dover'',
          ''Newark'', ''Middletown'', ''Bear''] \<rparr>),
      (''FL'', \<lparr> stateName = ''Florida'', cities = [''Jacksonville'', ''Miami'',
          ''Tampa'', ''Orlando'', ''St. Petersburg'', ''Hialeah'', ''Tallahassee'',
          ''Fort Lauderdale'', ''Port St. Lucie'', ''Cape Coral'', ''Pembroke Pines'',
          ''Hollywood'', ''Miramar'', ''Gainesville'', ''Coral Springs''] \<rparr>),
      (''GA'', \<lparr> stateName = ''Georgia'', cities = [''Atlanta'', ''Augusta'',
          ''Columbus'', ''Savannah'', ''Athens'', ''Sandy Springs'', ''Macon''] \<rparr>),
      (''HI'', \<lparr> stateName = ''Hawaii'', cities = [''Honolulu'', ''Pearl City'',
          ''Hilo'', ''Kailua'', ''Waipahu''] \<rparr>),
      (''ID'', \<lparr> stateName = ''Idaho'', cities = [''Boise'', ''Meridian'', ''Nampa'',
          ''Idaho Falls'', ''Pocatello''] \<rparr>),
      (''IL'', \<lparr> stateName = ''Illinois'', cities = [''Chicago'', ''Aurora'',
          ''Rockford'', ''Joliet'', ''Naperville'', ''Springfield'', ''Peoria''] \<rparr>),
      (''IN'', \<lparr> stateName = ''Indiana'', cities = [''Indianapolis'', ''Fort Wayne'',
          ''Evansville'', ''South Bend'', ''Carmel''] \<rparr>),
      (''IA'', \<lparr> stateName = ''Iowa'', cities = [''Des Moines'', ''Cedar Rapids'',
          ''Davenport'', ''Sioux City'', ''Iowa City''] \<rparr>),
      (''KS'', \<lparr> stateName = ''Kansas'', cities = [''Wichita'', ''Overland Park'',
          ''Kansas City'', ''Olathe'', ''Topeka''] \<rparr>),
      (''KY'', \<lparr> stateName = ''Kentucky'', cities = [''Louisville'', ''Lexington'',
          ''Bowling Green'', ''Owensboro'', ''Covington''] \<rparr>),
      (''LA'', \<lparr> stateName = ''Louisiana'', cities = [''New Orleans'', ''Baton Rouge'',
          ''Shreveport'', ''Lafayette'', ''Lake Charles''] \<rparr>),
      (''ME'', \<lparr> stateName = ''Maine'', cities = [''Portland'', ''Lewiston'',
          ''Bangor'', ''South Portland'', ''Auburn''] \<rparr>),
      (''MD'', \<lparr> stateName = ''Maryland'', cities = [''Baltimore'', ''Frederick'',
          ''Rockville'', ''Gaithersburg'', ''Bowie''] \<rparr>),
      (''MA'', \<lparr> stateName = ''Massachusetts'', cities = [''Boston'', ''Worcester'',
          ''Springfield'', ''Cambridge'', ''Lowell'', ''Brockton''] \<rparr>),
      (''MI'', \<lparr> stateName = ''Michigan'', cities = [''Detroit'', ''Grand Rapids'',
          ''Warren'', ''Sterling Heights'', ''Ann Arbor'', ''Lansing''] \<rparr>),
      (''MN'', \<lparr> stateName = ''Minnesota'', cities = [''Minneapolis'', ''St. Paul'',
          ''Rochester'', ''Duluth'', ''Bloomington''] \<rparr>),
      (''MS'', \<lparr> stateName = ''Mississippi'', cities = [''Jackson'', ''Gulfport'',
          ''Southaven'', ''Hattiesburg'', ''Biloxi''] \<rparr>),
      (''MO'', \<lparr> stateName = ''Missouri'', cities = [''Kansas City'', ''St. Louis'',
          ''Springfield'', ''Columbia'', ''Independence''] \<rparr>),
      (''MT'', \<lparr> stateName = ''Montana'', cities = [''Billings'', ''Missoula'',
          ''Great Falls'', ''Bozeman'', ''Butte''] \<rparr>),
      (''NE'', \<lparr> stateName = ''Nebraska'', cities = [''Omaha'', ''Lincoln'',
          ''Bellevue'', ''Grand Island'', ''Kearney''] \<rparr>),
      (''NV'', \<lparr> stateName = ''Nevada'', cities = [''Las Vegas'', ''Henderson'',
          ''Reno'', ''North Las Vegas'', ''Sparks''] \<rparr>),
      (''NH'', \<lparr> stateName = ''New Hampshire'', cities = [''Manchester'', ''Nashua'',
          ''Concord'', ''Derry'', ''Rochester''] \<rparr>),
      (''NJ'', \<lparr> stateName = ''New Jersey'', cities = [''Newark'', ''Jersey City'',
          ''Paterson'', ''Elizabeth'', ''Edison'', ''Trenton''] \<rparr>),
      (''NM'', \<lparr> stateName = ''New Mexico'', cities = [''Albuquerque'', ''Las Cruces'',
          ''Rio Rancho'', ''Santa Fe'', ''Roswell''] \<rparr>),
      (''NY'', \<lparr> stateName = ''New York'', cities = [''New York'', ''Buffalo'',
          ''Rochester'', ''Yonkers'', ''Syracuse'', ''Albany'', ''New Rochelle'',
          ''Mount Vernon'', ''Schenectady'', ''Utica'', ''White Plains'', ''Troy'',
          ''Niagara Falls'', ''Binghamton'', ''Freeport''] \<rparr>),
      (''NC'', \<lparr> stateName = ''North Carolina'', cities = [''Charlotte'', ''Raleigh'',
          ''Greensboro'', ''Durham'', ''Winston-Salem'', ''Fayetteville''] \<rparr>),
      (''ND'', \<lparr> stateName = ''North Dakota'', cities = [''Fargo'', ''Bismarck'',
          ''Grand Forks'', ''Minot'', ''West Fargo''] \<rparr>),
      (''OH'', \<lparr> stateName = ''Ohio'', cities = [''Columbus'', ''Cleveland'',
          ''Cincinnati'', ''Toledo'', ''Akron'', ''Dayton''] \<rparr>),
      (''OK'', \<lparr> stateName = ''Oklahoma'', cities = [''Oklahoma City'', ''Tulsa'',
          ''Norman'', ''Broken Arrow'', ''Lawton''] \<rparr>),
      (''OR'', \<lparr> stateName = ''Oregon'', cities = [''Portland'', ''Salem'', ''Eugene'',
          ''Gresham'', ''Hillsboro'', ''Beaverton''] \<rparr>),
      (''PA'', \<lparr> stateName = ''Pennsylvania'', cities = [''Philadelphia'',
          ''Pittsburgh'', ''Allentown'', ''Erie'', ''Reading'', ''Scranton'', ''Bethlehem'',
          ''Lancaster'', ''Harrisburg'', ''Altoona'', ''York'', ''State College'',
          ''Wilkes-Barre''] \<rparr>),
      (''RI'', \<lparr> stateName = ''Rhode Island'', cities = [''Providence'', ''Warwick'',
          ''Cranston'', ''Pawtucket'', ''East Providence''] \<rparr>),
      (''SC'', \<lparr> stateName = ''South Carolina'', cities = [''Charleston'', ''Columbia'',
          ''North Charleston'', ''Mount Pleasant'', ''Rock Hill''] \<rparr>),
      (''SD'', \<lparr> stateName = ''South Dakota'', cities = [''Sioux Falls'',
          ''Rapid City'', ''Aberdeen'', ''Brookings'', ''Watertown''] \<rparr>),
      (''TN'', \<lparr> stateName = ''Tennessee'', cities = [''Nashville'', ''Memphis'',
          ''Knoxville'', ''Chattanooga'', ''Clarksville''] \<rparr>),
      (''TX'', \<lparr> stateName = ''Texas'', cities = [''Houston'', ''San Antonio'',
          ''Dallas'', ''Austin'', ''Fort Worth'', ''El Paso'', ''Arlington'',
          ''Corpus Christi'', ''Plano'', ''Laredo'', ''Lubbock'', ''Garland'', ''Irving'',
          ''Amarillo'', ''Grand Prairie'', ''Brownsville'', ''McKinney'', ''Frisco'',
          ''Pasadena'', ''Mesquite''] \<rparr>),
      (''UT'', \<lparr> stateName = ''Utah'', cities = [''Salt Lake City'',
          ''West Valley City'', ''Provo'', ''West Jordan'', ''Orem''] \<rparr>),
      (''VT'', \<lparr> stateName = ''Vermont'', cities = [''Burlington'',
          ''South Burlington'', ''Rutland'', ''Barre'', ''Montpelier''] \<rparr>),
      (''VA'', \<lparr> stateName = ''Virginia'', cities = [''Virginia Beach'', ''Norfolk'',
          ''Chesapeake'', ''Richmond'', ''Newport News'', ''Alexandria''] \<rparr>),
      (''WA'', \<lparr> stateName = ''Washington'', cities = [''Seattle'', ''Spokane'',
          ''Tacoma'', ''Vancouver'', ''Bellevue'', ''Kent'', ''Everett''] \<rparr>),
      (''WV'', \<lparr> stateName = ''West Virginia'', cities = [''Charleston'',
          ''Huntington'', ''Morgantown'', ''Parkersburg'', ''Wheeling''] \<rparr>),
      (''WI'', \<lparr> stateName = ''Wisconsin'', cities = [''Milwaukee'', ''Madison'',
          ''Green Bay'', ''Kenosha'', ''Racine''] \<rparr>),
      (''WY'', \<lparr> stateName = ''Wyoming'', cities = [''Cheyenne'', ''Casper'',
          ''Laramie'', ''Gillette'', ''Rock Springs''] \<rparr>)
     ]"

text \<open>The interface \<open>Clinic\<close> of the script; its fields carry the prefix \<open>b_\<close>.\<close>

record batchClinic =
  b_id :: string
  b_name :: string
  b_formattedAddress :: "string option"
  b_location :: "(real \<times> real) option"
  b_phone :: "string option"
  b_website :: "string option"
  b_rating :: "real option"
  b_userRatingCount :: "nat option"
  b_types :: "string list option"
  b_businessStatus :: "string option"

record stats =
  totalRequests :: nat
  rejectedNonUS :: nat
  rejectedNonDerm :: nat
  statesCompleted :: "string list"
  statesFailed :: "string list"

text \<open>The run: the object \<open>stats\<close> and the files written, each with its array of clinics.\<close>

record batchWorld = stats +
  files :: "(string \<times> batchClinic list) list"

definition MAX_REQUESTS_all :: nat where
  "MAX_REQUESTS_all = 50000"

text \<open>\<open>makeRequest\<close> counts the request first and tests the limit after.\<close>

definition makeRequest :: "'a stats_scheme \<Rightarrow> (string + unit) \<times> 'a stats_scheme" where
  "makeRequest s =
     (let s1 = s\<lparr>totalRequests := totalRequests s + 1\<rparr>
      in if totalRequests s1 \<ge> MAX_REQUESTS_all
         then (Inl ''Request limit reached (50000)'', s1)
         else (Inr (), s1))"

definition isDermatologyClinic_all :: "string \<Rightarrow> bool" where
  "isDermatologyClinic_all nm =
     (let lowerName = toLowerCase nm
      in str_includes lowerName ''derm'' \<or> str_includes lowerName ''skin'' \<or>
         str_includes lowerName ''derma'')"

definition isUpper :: "char \<Rightarrow> bool" where
  "isUpper c = (c \<in> set ''ABCDEFGHIJKLMNOPQRSTUVWXYZ'')"

text \<open>\<open>\\w\<close>\<close>

definition isWordChar :: "char \<Rightarrow> bool" where
  "isWordChar c =
     (c \<in> set ''ABCDEFGHIJKLMNOPQRSTUVWXYZabcdefghijklmnopqrstuvwxyz0123456789_'')"

text \<open>
  The pattern \<open>\\b[A-Z]{2}\\s+\\d{5}\\b\<close> at the start of \<open>s\<close>, where \<open>prev\<close> is the character
  before \<open>s\<close> in the address: two capitals after a character that is not of a word,
  white space, five digits, and no character of a word after them.
\<close>

definition stateZipHere :: "char option \<Rightarrow> string \<Rightarrow> bool" where
  "stateZipHere prev s =
     (case s of
        a # b # rest \<Rightarrow>
          isUpper a \<and> isUpper b \<and>
          (case prev of None \<Rightarrow> True | Some p \<Rightarrow> \<not> isWordChar p) \<and>
          takeWhile isSpace rest \<noteq> [] \<and>
          (let digits = dropWhile isSpace rest
           in length digits \<ge> 5 \<and> list_all isDigit (take 5 digits) \<and>
              (case drop 5 digits of [] \<Rightarrow> True | c # cs \<Rightarrow> \<not> isWordChar c))
      | _ \<Rightarrow> False)"

text \<open>\<open>statePattern.test(address)\<close>: the pattern somewhere in the address.\<close>

fun stateZipFrom :: "char option \<Rightarrow> string \<Rightarrow> bool" where
  "stateZipFrom prev [] = False"
| "stateZipFrom prev (c # cs) = (stateZipHere prev (c # cs) \<or> stateZipFrom (Some c) cs)"

definition isUSAddress :: "string option \<Rightarrow> bool" where
  "isUSAddress address =
     (if \<not> truthy address then False
      else
        let addr = orEmpty address;
            lowerAddress = toLowerCase addr;
            hasUSA = str_includes lowerAddress ''usa'' \<or> str_includes lowerAddress ''united states'';
            hasStateZip = stateZipFrom None addr;
            stateNames = map (\<lambda>kv. toLowerCase (stateName (snd kv))) ALL_STATES;
            hasStateName = list_ex (\<lambda>nm. str_includes lowerAddress nm) stateNames
        in hasUSA \<or> hasStateZip \<or> hasStateName)"

definition parseClinicFromPlace ::
  "place \<Rightarrow> 'a stats_scheme \<Rightarrow> batchClinic option \<times> 'a stats_scheme" where
  "parseClinicFromPlace p s =
     (if \<not> truthy (placeId p) then (None, s)
      else
        let nm = orEmpty (case displayName p of None \<Rightarrow> None | Some t \<Rightarrow> t);
            address = formattedAddress p
        in if \<not> isDermatologyClinic_all nm
             then (None, s\<lparr>rejectedNonDerm := rejectedNonDerm s + 1\<rparr>)
           else if \<not> isUSAddress address
             then (None, s\<lparr>rejectedNonUS := rejectedNonUS s + 1\<rparr>)
           else (Some \<lparr> b_id = orEmpty (placeId p), b_name = nm, b_formattedAddress = address,
                         b_location = placeLocation p, b_phone = nationalPhoneNumber p,
                         b_website = websiteUri p, b_rating = placeRating p,
                         b_userRatingCount = userRatingCount p, b_types = placeTypes p,
                         b_businessStatus = businessStatus p \<rparr>, s))"

text \<open>
  A \<open>Map\<close> keeps its keys in the order they were first set: \<open>mapSet\<close> is \<open>set\<close>, which
  replaces the value of a key in place or adds the key at the end.
\<close>

fun mapSet :: "'k \<Rightarrow> 'v \<Rightarrow> ('k \<times> 'v) list \<Rightarrow> ('k \<times> 'v) list" where
  "mapSet k v [] = [(k, v)]"
| "mapSet k v (kv # m) = (if fst kv = k then (k, v) # m else kv # mapSet k v m)"

text \<open>\<open>places.forEach\<close>: every clinic that is parsed is set under its identifier.\<close>

fun forEachPlace ::
  "place list \<Rightarrow> (string \<times> batchClinic) list \<Rightarrow> 'a stats_scheme \<Rightarrow>
   (string \<times> batchClinic) list \<times> 'a stats_scheme" where
  "forEachPlace [] clinicMap s = (clinicMap, s)"
| "forEachPlace (p # ps) clinicMap s =
     (case parseClinicFromPlace p s of
        (None, s1) \<Rightarrow> forEachPlace ps clinicMap s1
      | (Some c, s1) \<Rightarrow> forEachPlace ps (mapSet (b_id c) c clinicMap) s1)"

text \<open>
  The loop over the queries of a city. \<open>makeRequest\<close> stands outside the \<open>try\<close>: its error
  leaves the loops. A request that fails changes nothing.
\<close>

fun queryLoop_all ::
  "(nat \<Rightarrow> searchResponse) \<Rightarrow> string list \<Rightarrow> (string \<times> batchClinic) list \<Rightarrow> 'a stats_scheme \<Rightarrow>
   (string + (string \<times> batchClinic) list) \<times> 'a stats_scheme" where
  "queryLoop_all src [] clinicMap s = (Inr clinicMap, s)"
| "queryLoop_all src (query # queries) clinicMap s =
     (case makeRequest s of
        (Inl e, s1) \<Rightarrow> (Inl e, s1)
      | (Inr u, s1) \<Rightarrow>
          (case src (totalRequests s1) of
             Places ps next \<Rightarrow>
               (let (clinicMap1, s2) =
                      forEachPlace (case ps of None \<Rightarrow> [] | Some l \<Rightarrow> l) clinicMap s1
                in queryLoop_all src queries clinicMap1 s2)
           | _ \<Rightarrow> queryLoop_all src queries clinicMap s1))"

definition queries_all :: "string list" where
  "queries_all = [''dermatology'', ''dermatologist'', ''skin doctor'']"

fun cityLoop_all ::
  "(nat \<Rightarrow> searchResponse) \<Rightarrow> string list \<Rightarrow> (string \<times> batchClinic) list \<Rightarrow> 'a stats_scheme \<Rightarrow>
   (string + (string \<times> batchClinic) list) \<times> 'a stats_scheme" where
  "cityLoop_all src [] clinicMap s = (Inr clinicMap, s)"
| "cityLoop_all src (cityName # rest) clinicMap s =
     (case queryLoop_all src queries_all clinicMap s of
        (Inl e, s1) \<Rightarrow> (Inl e, s1)
      | (Inr clinicMap1, s1) \<Rightarrow> cityLoop_all src rest clinicMap1 s1)"

text \<open>
  \<open>collectStateData\<close> of the batch script: the map starts empty; the array of its values
  is written to the file of the state unless it is empty.
\<close>

definition collectStateData_all ::
  "(nat \<Rightarrow> searchResponse) \<Rightarrow> string \<Rightarrow> stateCities \<Rightarrow> batchWorld \<Rightarrow>
   (string + bool) \<times> batchWorld" where
  "collectStateData_all src stateCode stateInfo w =
     (case cityLoop_all src (cities stateInfo) [] w of
        (Inl e, w1) \<Rightarrow> (Inl e, w1)
      | (Inr clinicMap, w1) \<Rightarrow>
          (let clinicArray = map snd clinicMap
           in if clinicArray = [] then (Inr False, w1)
              else (Inr True,
                    w1\<lparr>files := files w1 @ [(toLowerCase stateCode @ ''.json'', clinicArray)]\<rparr>)))"

text \<open>
  The loop of \<open>main\<close> over the states to process. The handler of an error of a state
  records the state as failed and the loop goes on with the next state.
\<close>

fun mainLoop_all :: "(nat \<Rightarrow> searchResponse) \<Rightarrow> string list \<Rightarrow> batchWorld \<Rightarrow> batchWorld" where
  "mainLoop_all src [] w = w"
| "mainLoop_all src (stateCode # rest) w =
     (case map_of ALL_STATES stateCode of
        None \<Rightarrow> mainLoop_all src rest (w\<lparr>statesFailed := statesFailed w @ [stateCode]\<rparr>)
      | Some stateInfo \<Rightarrow>
          (case collectStateData_all src stateCode stateInfo w of
             (Inl e, w1) \<Rightarrow>
               mainLoop_all src rest (w1\<lparr>statesFailed := statesFailed w1 @ [stateCode]\<rparr>)
           | (Inr success, w1) \<Rightarrow>
               if success
               then mainLoop_all src rest (w1\<lparr>statesCompleted := statesCompleted w1 @ [stateCode]\<rparr>)
               else mainLoop_all src rest (w1\<lparr>statesFailed := statesFailed w1 @ [stateCode]\<rparr>)))"

section \<open>Client search, filter and sort (clinics page)\<close>

text \<open>
  Modelled from the spec: the declarations of \<open>Clinic\<close> and \<open>FilterOptions\<close>
  (\<open>lib/dataTypes\<close>) are not under src/. The record has the fields the page reads;
  a field the page guards (\<open>x || ''\<close>, \<open>x?.y\<close>) is optional, and \<open>location\<close>, which the
  page reads unguarded and the data model of the spec lists as a latitude/longitude
  pair, is required. \<open>distance\<close> is the derived field of a location search.
\<close>

record Clinic =
  place_id :: "string option"
  display_name :: "string option"
  formatted_address :: "string option"
  city :: "string option"
  state_code :: "string option"
  postal_code :: "string option"
  types :: "string list option"
  primary_type :: "string option"
  location :: "real \<times> real"
  rating :: "real option"
  user_rating_count :: "nat option"
  website :: "string option"
  phone :: "string option"
  accessibility_options :: "flags option"
  parking_options :: "flags option"
  current_open_now :: "bool option"
  opening_hours :: "openingHours option"
  distance :: "real option"

record FilterOptions =
  rating_min :: "real option"
  has_website :: "bool option"
  has_phone :: "bool option"
  wheelchair_accessible :: "bool option"
  free_parking :: "bool option"
  open_now :: "bool option"
  states :: "string list option"
  sort_by :: "string option"
  sort_order :: "string option"

text \<open>
  The arrays of the page live in a store: an address is an index into \<open>heap\<close>, and the
  state variables \<open>clinics\<close> and \<open>filteredClinics\<close> hold addresses, so that two variables
  can hold the same array. The clinic objects are never written to, so an array holds
  them by value.
\<close>

record page =
  heap :: "Clinic list list"
  clinics :: nat
  filteredClinics :: nat
  filters :: FilterOptions

text \<open>A new array (\<open>filter\<close>, \<open>map\<close>, \<open>[...xs]\<close>) gets the next free address.\<close>

definition newArray :: "Clinic list \<Rightarrow> page \<Rightarrow> nat \<times> page" where
  "newArray xs st = (length (heap st), st\<lparr>heap := heap st @ [xs]\<rparr>)"

definition setFilteredClinics :: "nat \<Rightarrow> page \<Rightarrow> page" where
  "setFilteredClinics a st = st\<lparr>filteredClinics := a\<rparr>"

text \<open>
  \<open>Array.prototype.sort(cmp)\<close>: stable, \<open>x\<close> before \<open>y\<close> when \<open>cmp x y < 0\<close>. For a
  comparator that is a consistent ordering, every stable sort gives this result.
\<close>

fun insertSorted :: "('a \<Rightarrow> 'a \<Rightarrow> real) \<Rightarrow> 'a \<Rightarrow> 'a list \<Rightarrow> 'a list" where
  "insertSorted cmp x [] = [x]"
| "insertSorted cmp x (y # ys) =
     (if cmp x y \<le> 0 then x # y # ys else y # insertSorted cmp x ys)"

definition jsSort :: "('a \<Rightarrow> 'a \<Rightarrow> real) \<Rightarrow> 'a list \<Rightarrow> 'a list" where
  "jsSort cmp xs = foldr (insertSorted cmp) xs []"

text \<open>\<open>xs.sort(cmp)\<close> sorts the array at address \<open>a\<close> in place.\<close>

definition sortInPlace :: "(Clinic \<Rightarrow> Clinic \<Rightarrow> real) \<Rightarrow> nat \<Rightarrow> page \<Rightarrow> page" where
  "sortInPlace cmp a st = st\<lparr>heap := (heap st)[a := jsSort cmp (heap st ! a)]\<rparr>"

text \<open>\<open>/^\\d{5}$/.test(s)\<close>\<close>

definition isZipCode :: "string \<Rightarrow> bool" where
  "isZipCode s = (length s = 5 \<and> list_all isDigit s)"

definition nl :: string where
  "nl = [CHR 0x0A]"

text \<open>The template literal of the page, with its line breaks and indentation.\<close>

definition searchableText :: "Clinic \<Rightarrow> string" where
  "searchableText clinic =
     toLowerCase
       (nl @ ''        '' @ orEmpty (display_name clinic) @ '' '' @
        nl @ ''        '' @ orEmpty (formatted_address clinic) @ '' '' @
        nl @ ''        '' @ orEmpty (city clinic) @
        nl @ ''        '' @ orEmpty (state_code clinic) @
        nl @ ''        '' @ (case types clinic of None \<Rightarrow> [] | Some ts \<Rightarrow> join '' '' ts) @
        nl @ ''        '' @ orEmpty (primary_type clinic) @
        nl @ ''      '')"

definition handleSearch :: "string \<Rightarrow> page \<Rightarrow> page" where
  "handleSearch query st =
     (if query = [] \<or> trim query = [] then setFilteredClinics (clinics st) st
      else
        let trimmedQuery = trim query;
            lowerQuery = toLowerCase trimmedQuery;
            isZip = isZipCode trimmedQuery;
            (filtered, st1) =
              newArray
                (filter
                   (\<lambda>clinic. if isZip then postal_code clinic = Some trimmedQuery
                             else str_includes (searchableText clinic) lowerQuery)
                   (heap st ! clinics st))
                st
        in setFilteredClinics filtered st1)"

text \<open>
  \<open>a.distance - b.distance\<close>; with a distance missing the difference is \<open>NaN\<close>, which the
  sort reads as \<open>0\<close>.
\<close>

definition byDistance :: "Clinic \<Rightarrow> Clinic \<Rightarrow> real" where
  "byDistance a b =
     (case (distance a, distance b) of (Some x, Some y) \<Rightarrow> x - y | _ \<Rightarrow> 0)"

text \<open>
  \<open>calculateDistance\<close> (\<open>lib/utils\<close>) is not under src/: it is a parameter, taking the
  reference point and the point of the clinic, each as (latitude, longitude).
\<close>

definition handleLocationSearch ::
  "((real \<times> real) \<Rightarrow> (real \<times> real) \<Rightarrow> real) \<Rightarrow> real \<Rightarrow> real \<Rightarrow> page \<Rightarrow> page" where
  "handleLocationSearch calculateDistance lat lng st =
     (let (clinicsWithDistance, st1) =
            newArray
              (map (\<lambda>clinic. clinic\<lparr>distance :=
                      Some (calculateDistance (lat, lng) (fst (location clinic), snd (location clinic)))\<rparr>)
                 (heap st ! clinics st))
              st;
          st2 = sortInPlace byDistance clinicsWithDistance st1
      in setFilteredClinics clinicsWithDistance st2)"

text \<open>Truthiness of an optional flag and of an optional number.\<close>

fun flagSet :: "bool option \<Rightarrow> bool" where
  "flagSet None = False"
| "flagSet (Some b) = b"

fun orZero :: "real option \<Rightarrow> real" where
  "orZero None = 0"
| "orZero (Some r) = r"

fun orZeroNat :: "nat option \<Rightarrow> nat" where
  "orZeroNat None = 0"
| "orZeroNat (Some n) = n"

text \<open>\<open>options?.key === true\<close>\<close>

definition flagTrue :: "flags option \<Rightarrow> string \<Rightarrow> bool" where
  "flagTrue grp k = (case grp of None \<Rightarrow> False | Some fl \<Rightarrow> map_of fl k = Some True)"

text \<open>One step \<open>if (cond) filtered = filtered.filter(pred)\<close> of the filter chain.\<close>

definition filterStep :: "bool \<Rightarrow> (Clinic \<Rightarrow> bool) \<Rightarrow> nat \<times> page \<Rightarrow> nat \<times> page" where
  "filterStep cond pred fs =
     (if cond then newArray (filter pred (heap (snd fs) ! fst fs)) (snd fs) else fs)"

text \<open>\<open>a < b\<close> on strings: by code unit, a proper prefix first.\<close>

fun strLess :: "string \<Rightarrow> string \<Rightarrow> bool" where
  "strLess [] [] = False"
| "strLess [] (b # bs) = True"
| "strLess (a # as) [] = False"
| "strLess (a # as) (b # bs) =
     ((of_char a :: nat) < of_char b \<or> (a = b \<and> strLess as bs))"

text \<open>The comparator of the sort step.\<close>

definition ordered :: "bool \<Rightarrow> bool \<Rightarrow> bool \<Rightarrow> real" where
  "ordered asc lt gt =
     (if asc then (if lt then -1 else if gt then 1 else 0)
      else (if gt then -1 else if lt then 1 else 0))"

definition sortComparator :: "FilterOptions \<Rightarrow> Clinic \<Rightarrow> Clinic \<Rightarrow> real" where
  "sortComparator f a b =
     (let asc = (sort_order f = Some ''asc'')
      in if sort_by f = Some ''rating''
           then ordered asc (orZero (rating a) < orZero (rating b))
                            (orZero (rating a) > orZero (rating b))
         else if sort_by f = Some ''reviews''
           then ordered asc (orZeroNat (user_rating_count a) < orZeroNat (user_rating_count b))
                            (orZeroNat (user_rating_count a) > orZeroNat (user_rating_count b))
         else if sort_by f = Some ''name''
           then ordered asc
                  (strLess (toLowerCase (orEmpty (display_name a)))
                           (toLowerCase (orEmpty (display_name b))))
                  (strLess (toLowerCase (orEmpty (display_name b)))
                           (toLowerCase (orEmpty (display_name a))))
         else 0)"

definition applyFilters :: "page \<Rightarrow> page" where
  "applyFilters st =
     (let f = filters st;
          s0 = newArray (heap st ! clinics st) st;
          s1 = filterStep (rating_min f \<noteq> None \<and> rating_min f \<noteq> Some 0)
                 (\<lambda>c. orZero (rating c) \<ge> orZero (rating_min f)) s0;
          s2 = filterStep (flagSet (has_website f))
                 (\<lambda>c. truthy (website c) \<and> trim (orEmpty (website c)) \<noteq> []) s1;
          s3 = filterStep (flagSet (has_phone f))
                 (\<lambda>c. truthy (phone c) \<and> trim (orEmpty (phone c)) \<noteq> []) s2;
          s4 = filterStep (flagSet (wheelchair_accessible f))
                 (\<lambda>c. flagTrue (accessibility_options c) ''wheelchair_accessible_entrance'') s3;
          s5 = filterStep (flagSet (free_parking f))
                 (\<lambda>c. flagTrue (parking_options c) ''free_parking_lot'') s4;
          s6 = filterStep (flagSet (open_now f))
                 (\<lambda>c. current_open_now c = Some True \<or>
                      (case opening_hours c of None \<Rightarrow> False
                       | Some oh \<Rightarrow> oh_open_now oh = Some True)) s5;
          s7 = filterStep (case states f of None \<Rightarrow> False | Some ss \<Rightarrow> length ss > 0)
                 (\<lambda>c. truthy (state_code c) \<and>
                      (case (state_code c, states f) of
                         (Some sc, Some ss) \<Rightarrow> sc \<in> set ss
                       | _ \<Rightarrow> False)) s6;
          s8 = (if truthy (sort_by f)
                then (fst s7, sortInPlace (sortComparator f) (fst s7) (snd s7))
                else s7)
      in setFilteredClinics (fst s8) (snd s8))"

section \<open>Example inputs\<close>

text \<open>A place with no field set but the address components.\<close>

definition placeAt :: "string \<Rightarrow> string \<Rightarrow> place" where
  "placeAt country state =
     \<lparr> placeId = None, displayName = None, formattedAddress = None,
       addressComponents = Some
         [\<lparr> componentTypes = Some [''administrative_area_level_1'', ''political''],
             shortText = Some state, longText = None \<rparr>,
          \<lparr> componentTypes = Some [''country'', ''political''],
             shortText = Some country, longText = None \<rparr>],
       placeLocation = None, primaryType = None, placeTypes = None,
       placeRating = None, userRatingCount = None, currentOpeningHours = None,
       regularOpeningHours = None, nationalPhoneNumber = None,
       internationalPhoneNumber = None, websiteUri = None, googleMapsUri = None,
       businessStatus = None, accessibilityOptions = None, parkingOptions = None,
       paymentOptions = None, priceLevel = None, photos = None \<rparr>"

text \<open>A dermatology practice in Seattle, Washington, United States.\<close>

definition seattleClinic :: place where
  "seattleClinic =
     (placeAt ''US'' ''WA'')
       \<lparr> placeId := Some ''ChIJ-seattle'',
         displayName := Some (Some ''Seattle Dermatology''),
         placeTypes := Some [''doctor'', ''health''] \<rparr>"

text \<open>A skin care clinic in California whose name carries an excluded term.\<close>

definition spaResortClinic :: place where
  "spaResortClinic =
     (placeAt ''US'' ''CA'')
       \<lparr> placeId := Some ''ChIJ-spa'',
         displayName := Some (Some ''Malibu Dermatology and Spa Resort''),
         placeTypes := Some [''skin_care_clinic'', ''doctor''] \<rparr>"



text \<open>
  A dermatology practice in California, as the places source lists it under the
  identifier \<open>ident\<close>.
\<close>

definition pacificDerm :: "string \<Rightarrow> place" where
  "pacificDerm ident =
     (placeAt ''US'' ''CA'')
       \<lparr> placeId := Some ident,
         displayName := Some (Some ''Pacific Dermatology''),
         placeTypes := Some [''doctor'', ''health''] \<rparr>"

text \<open>
  A source of details that answers every request with that practice under the identifier
  it has now, \<open>ChIJ-new\<close>, whichever identifier of the practice is asked for.
\<close>

definition currentListing :: "string option \<Rightarrow> nat \<Rightarrow> detailResponse" where
  "currentListing pid n = Detail (pacificDerm ''ChIJ-new'')"

text \<open>Three clinics of the loaded list; the second has the digits 90210 in its name and address.\<close>

definition clinicOf :: "string \<Rightarrow> string \<Rightarrow> string option \<Rightarrow> real \<times> real \<Rightarrow> Clinic" where
  "clinicOf nm addr zp loc =
     \<lparr> place_id = Some nm, display_name = Some nm, formatted_address = Some addr,
       city = None, state_code = Some ''CA'', postal_code = zp, types = None,
       primary_type = None, location = loc, rating = None, user_rating_count = None,
       website = None, phone = None, accessibility_options = None, parking_options = None,
       current_open_now = None, opening_hours = None, distance = None \<rparr>"

definition beverlyHills :: Clinic where
  "beverlyHills =
     clinicOf ''Beverly Hills Dermatology'' ''9400 Brighton Way, Beverly Hills, CA 90210''
       (Some ''90210'') (34, -118)"

definition sunsetSkin :: Clinic where
  "sunsetSkin =
     clinicOf ''Skin Center 90210'' ''90210 Sunset Blvd, West Hollywood, CA 90069''
       (Some ''90069'') (35, -118)"

definition pasadenaSkin :: Clinic where
  "pasadenaSkin = clinicOf ''Pasadena Skin Clinic'' ''1 Lake Ave, Pasadena, CA'' None (36, -118)"

definition noFilters :: FilterOptions where
  "noFilters =
     \<lparr> rating_min = None, has_website = None, has_phone = None, wheelchair_accessible = None,
       free_parking = None, open_now = None, states = None, sort_by = None, sort_order = None \<rparr>"

text \<open>
  The page after \<open>loadClinics\<close>, which sets \<open>clinics\<close> and \<open>filteredClinics\<close> to the one
  loaded array.
\<close>

definition loadedPage :: page where
  "loadedPage =
     \<lparr> heap = [[beverlyHills, sunsetSkin, pasadenaSkin]], clinics = 0, filteredClinics = 0,
       filters = noFilters \<rparr>"

text \<open>The page after a search for the postal code 90210.\<close>

definition searchedPage :: page where
  "searchedPage = handleSearch ''90210'' loadedPage"

text \<open>The default settings of the comprehensive script, and a run that has not started.\<close>

definition defaults :: config where
  "defaults = \<lparr> MAX_REQUESTS = 5000, QPS = 3, NEXT_PAGE_DELAY_MS = 1200 \<rparr>"

definition startWorld :: world where
  "startWorld = \<lparr> TOTAL_REQUESTS = 0, REJECTED_NON_US = 0, REJECTED_NON_DERM = 0, trace = [] \<rparr>"

text \<open>A source that answers every search with no place and a next page token.\<close>

definition alwaysMore :: "nat \<Rightarrow> searchResponse" where
  "alwaysMore n = Places (Some []) (Some ''token'')"

text \<open>A source that answers every request with the status 500, and a batch run that has not started.\<close>

definition allFail :: "nat \<Rightarrow> searchResponse" where
  "allFail n = Status 500"

definition startBatch :: batchWorld where
  "startBatch = \<lparr> totalRequests = 0, rejectedNonUS = 0, rejectedNonDerm = 0,
                  statesCompleted = [], statesFailed = [], files = [] \<rparr>"

definition limitError :: string where
  "limitError = ''Request limit reached (50000)''"

section \<open>Proof devices\<close>

text \<open>
  \<open>keeps st fs\<close>: the pair \<open>fs\<close> of an array address and a page is a stage of a pipeline
  started on \<open>st\<close>; every array of \<open>st\<close> is still as it was, and the address is of an
  array made since.
\<close>

definition keeps :: "page \<Rightarrow> nat \<times> page \<Rightarrow> bool" where
  "keeps st fs =
     (take (length (heap st)) (heap (snd fs)) = heap st \<and> length (heap st) \<le> fst fs \<and>
      fst fs < length (heap (snd fs)) \<and>
      clinics (snd fs) = clinics st \<and> filters (snd fs) = filters st)"

text \<open>The requests of the text search among the events.\<close>

definition isSearchText :: "event \<Rightarrow> bool" where
  "isSearchText e = (case e of SearchText q t \<Rightarrow> True | _ \<Rightarrow> False)"

text \<open>
  \<open>delayedFrom cfg n tr\<close>: every request for a continuation page at a position from \<open>n\<close>
  on in \<open>tr\<close> has the pause for the next page and the pause of the budget check right
  before it, both at positions from \<open>n\<close> on.
\<close>

definition delayedFrom :: "config \<Rightarrow> nat \<Rightarrow> event list \<Rightarrow> bool" where
  "delayedFrom cfg n tr =
     (\<forall>i. n \<le> i \<and> i < length tr \<longrightarrow>
        (\<forall>q t. tr ! i = SearchText q (Some t) \<longrightarrow>
           n + 2 \<le> i \<and> tr ! (i - 2) = Sleep (NEXT_PAGE_DELAY_MS cfg) \<and>
           tr ! (i - 1) = Sleep (requestDelay cfg)))"

text \<open>
  The identifier under which \<open>forEachPlace\<close> sets a place, if it sets it: the parse of a
  place does not depend on the counters.
\<close>

definition noStats :: stats where
  "noStats = \<lparr> totalRequests = 0, rejectedNonUS = 0, rejectedNonDerm = 0,
               statesCompleted = [], statesFailed = [] \<rparr>"

definition parsedId :: "place \<Rightarrow> string option" where
  "parsedId p = map_option b_id (fst (parseClinicFromPlace p noStats))"

text \<open>
  The identifiers of the clinics in the array \<open>clinics\<close> that the detail loop hands to
  the writer of the file, in the order of the array; no array when the loop throws.
\<close>

definition savedIds :: "(string + normalizedClinic list) \<Rightarrow> string option list" where
  "savedIds r = (case r of Inl e \<Rightarrow> [] | Inr found \<Rightarrow> map n_place_id found)"

text \<open>\<open>keyed m\<close>: the keys of the map are distinct and every clinic is under its identifier.\<close>

definition keyed :: "(string \<times> batchClinic) list \<Rightarrow> bool" where
  "keyed m = (distinct (map fst m) \<and> map b_id (map snd m) = map fst m)"

text \<open>\<open>inBudget cfg w\<close>: the counter of the requests is not above the limit.\<close>

definition inBudget :: "config \<Rightarrow> 'a counters_scheme \<Rightarrow> bool" where
  "inBudget cfg w = (TOTAL_REQUESTS w \<le> MAX_REQUESTS cfg)"

section \<open>The classifier\<close>

lemma US_STATES_keys_eq:
  "US_STATES_keys = [''CA'', ''TX'', ''FL'', ''NY'', ''PA'', ''IL'', ''OH'', ''GA'', ''NC'', ''MI'']"
  by (simp add: US_STATES_keys_def US_STATES_def)

lemma placeAddress_seattleClinic:
  "placeAddress seattleClinic =
     \<lparr> ac_state_code = Some ''WA'', ac_city = None, ac_postal_code = None,
       ac_country_code = Some ''US'' \<rparr>"
  by (simp add: placeAddress_def seattleClinic_def placeAt_def parseAddressComponents_def
      getComponent_def)

lemma placeAddress_spaResortClinic:
  "placeAddress spaResortClinic =
     \<lparr> ac_state_code = Some ''CA'', ac_city = None, ac_postal_code = None,
       ac_country_code = Some ''US'' \<rparr>"
  by (simp add: placeAddress_def spaResortClinic_def placeAt_def parseAddressComponents_def
      getComponent_def)



text \<open>
  The classifier rejects a place as non-US exactly when one of the two guards of the
  source fires; the state guard tests membership in the ten keys of \<open>US_STATES\<close>.
\<close>

lemma classifier_non_us_iff:
  "isDermatologyClinic cs p = (False, cs\<lparr>REJECTED_NON_US := REJECTED_NON_US cs + 1\<rparr>) \<longleftrightarrow>
   foreignCountry (placeAddress p) \<or> invalidState (placeAddress p)"
proof -
  have ne: "cs\<lparr>REJECTED_NON_DERM := REJECTED_NON_DERM cs + 1\<rparr> \<noteq>
            cs\<lparr>REJECTED_NON_US := REJECTED_NON_US cs + 1\<rparr>"
  proof
    assume "cs\<lparr>REJECTED_NON_DERM := REJECTED_NON_DERM cs + 1\<rparr> =
            cs\<lparr>REJECTED_NON_US := REJECTED_NON_US cs + 1\<rparr>"
    then have "REJECTED_NON_DERM (cs\<lparr>REJECTED_NON_DERM := REJECTED_NON_DERM cs + 1\<rparr>) =
               REJECTED_NON_DERM (cs\<lparr>REJECTED_NON_US := REJECTED_NON_US cs + 1\<rparr>)"
      by (rule arg_cong)
    then show False by simp
  qed
  show ?thesis
    using ne by (simp add: isDermatologyClinic_def Let_def)
qed

text \<open>
  C1. The claim reads the enumeration of valid states as the fifty states and DC.
  The script tests the state code against the keys of its table \<open>US_STATES\<close>, which has
  ten states: a dermatology practice in Seattle, with country code US and state code WA
  (one of the fifty), is rejected and counted as non-US.
\<close>

theorem washington_rejected_as_non_us:
  "''WA'' \<in> set ALL_US_STATE_CODES \<and>
   ac_country_code (placeAddress seattleClinic) = Some ''US'' \<and>
   ac_state_code (placeAddress seattleClinic) = Some ''WA'' \<and>
   isDermatologyClinic cs seattleClinic =
     (False, cs\<lparr>REJECTED_NON_US := REJECTED_NON_US cs + 1\<rparr>)"
proof -
  have "invalidState (placeAddress seattleClinic)"
    by (simp add: placeAddress_seattleClinic invalidState_def VALID_US_STATES_def
        US_STATES_keys_eq)
  then have "isDermatologyClinic cs seattleClinic =
               (False, cs\<lparr>REJECTED_NON_US := REJECTED_NON_US cs + 1\<rparr>)"
    using classifier_non_us_iff [of cs seattleClinic] by blast
  moreover have "''WA'' \<in> set ALL_US_STATE_CODES"
    by (simp add: ALL_US_STATE_CODES_def)
  ultimately show ?thesis by (simp add: placeAddress_seattleClinic)
qed

text \<open>
  C2. A place that passes both guards of the US validation and whose combined lowercase
  text of name, website and types contains one of the nine exclusion terms is rejected
  and counted as non-dermatology, whatever else the text contains: the exclusion test
  stands before every accept rule.
\<close>

theorem exclusion_before_accept:
  assumes "\<not> foreignCountry (placeAddress p)" and "\<not> invalidState (placeAddress p)"
    and "list_ex (str_includes (searchText p)) excludeTerms"
  shows "isDermatologyClinic cs p =
           (False, cs\<lparr>REJECTED_NON_DERM := REJECTED_NON_DERM cs + 1\<rparr>)"
  using assms by (simp add: isDermatologyClinic_def Let_def)

lemma searchText_spaResortClinic:
  "searchText spaResortClinic = ''malibu dermatology and spa resort  skin_care_clinic doctor''"
  by (simp add: searchText_def placeName_def placeWebsite_def placeTypesText_def
      spaResortClinic_def placeAt_def toLowerCase_def lowerChar_def)

text \<open>
  The rule at a place in California that has the core term dermatology in its name and
  the type \<open>skin_care_clinic\<close>, and the excluded term spa resort.
\<close>

theorem exclusion_before_accept_witness:
  "\<not> foreignCountry (placeAddress spaResortClinic) \<and>
   \<not> invalidState (placeAddress spaResortClinic) \<and>
   list_ex (str_includes (searchText spaResortClinic)) excludeTerms \<and>
   str_includes (searchText spaResortClinic) ''dermatology'' \<and>
   str_includes (placeTypesText spaResortClinic) ''skin_care_clinic'' \<and>
   isDermatologyClinic \<lparr>TOTAL_REQUESTS = 0, REJECTED_NON_US = 0, REJECTED_NON_DERM = 0\<rparr>
       spaResortClinic =
     (False, \<lparr>TOTAL_REQUESTS = 0, REJECTED_NON_US = 0, REJECTED_NON_DERM = 1\<rparr>)"
proof -
  have a: "\<not> foreignCountry (placeAddress spaResortClinic)"
    by (simp add: placeAddress_spaResortClinic foreignCountry_def)
  have b: "\<not> invalidState (placeAddress spaResortClinic)"
    by (simp add: placeAddress_spaResortClinic invalidState_def VALID_US_STATES_def
        US_STATES_keys_eq)
  have c: "str_includes (searchText spaResortClinic) ''spa resort''"
    by (simp add: searchText_spaResortClinic)
  have d: "list_ex (str_includes (searchText spaResortClinic)) excludeTerms"
    using c by (simp add: excludeTerms_def)
  have e: "str_includes (searchText spaResortClinic) ''dermatology''"
    by (simp add: searchText_spaResortClinic)
  have f: "str_includes (placeTypesText spaResortClinic) ''skin_care_clinic''"
    by (simp add: placeTypesText_def spaResortClinic_def placeAt_def toLowerCase_def
        lowerChar_def)
  show ?thesis
    using exclusion_before_accept [OF a b d,
        of "\<lparr>TOTAL_REQUESTS = 0, REJECTED_NON_US = 0, REJECTED_NON_DERM = 0\<rparr>"] a b d e f
    by simp
qed

section \<open>The transformer\<close>






section \<open>The pagination loop of the city text search\<close>

lemma isDermatologyClinic_trace:
  "trace (snd (isDermatologyClinic w p)) = trace w \<and>
   TOTAL_REQUESTS (snd (isDermatologyClinic w p)) = TOTAL_REQUESTS w"
  by (simp add: isDermatologyClinic_def Let_def)

lemma filterDerm_trace:
  "trace (snd (filterDerm ps w)) = trace w \<and>
   TOTAL_REQUESTS (snd (filterDerm ps w)) = TOTAL_REQUESTS w"
proof (induction ps arbitrary: w)
  case Nil
  show ?case by simp
next
  case (Cons p ps)
  obtain ok w1 where a: "isDermatologyClinic w p = (ok, w1)" by (cases "isDermatologyClinic w p")
  obtain rest w2 where b: "filterDerm ps w1 = (rest, w2)" by (cases "filterDerm ps w1")
  from a isDermatologyClinic_trace [of w p]
  have 1: "trace w1 = trace w \<and> TOTAL_REQUESTS w1 = TOTAL_REQUESTS w" by simp
  from b Cons.IH [of w1]
  have 2: "trace w2 = trace w1 \<and> TOTAL_REQUESTS w2 = TOTAL_REQUESTS w1" by simp
  show ?case using 1 2 by (simp add: a b)
qed

lemma acceptedClinics_trace:
  "trace (snd (acceptedClinics today ps w)) = trace w \<and>
   TOTAL_REQUESTS (snd (acceptedClinics today ps w)) = TOTAL_REQUESTS w"
  using filterDerm_trace [of "case ps of None \<Rightarrow> [] | Some l \<Rightarrow> l" w]
  by (simp add: acceptedClinics_def split_beta)

lemma acceptedClinics_traceD:
  "acceptedClinics today ps w = (places, w') \<Longrightarrow>
   trace w' = trace w \<and> TOTAL_REQUESTS w' = TOTAL_REQUESTS w"
  using acceptedClinics_trace [of today ps w] by simp

lemma fetchPage_cases:
  assumes "fetchPage cfg src today query tok w = (r, w1)"
  shows "(r = Inl limitMessage \<and> w1 = w \<and> MAX_REQUESTS cfg \<le> TOTAL_REQUESTS w) \<or>
         (TOTAL_REQUESTS w < MAX_REQUESTS cfg \<and> TOTAL_REQUESTS w1 = TOTAL_REQUESTS w + 1 \<and>
          (\<exists>sfx. trace w1 = trace w @ [Sleep (requestDelay cfg),
                     SearchText query (if truthy tok then tok else None)] @ sfx \<and>
                (case r of Inl e \<Rightarrow> sfx = []
                 | Inr (next, places) \<Rightarrow>
                     sfx = (if truthy next then [Sleep (NEXT_PAGE_DELAY_MS cfg)] else []))))"
  using assms unfolding fetchPage_def checkRequestLimit_def Let_def
  by (auto simp: sleep_def split: searchResponse.splits prod.splits if_splits
      dest!: acceptedClinics_traceD)


lemma delayedFrom_append:
  assumes d: "delayedFrom cfg n tr" and n: "n \<le> length tr"
    and t: "tok \<noteq> None \<longrightarrow> n < length tr \<and> last tr = Sleep (NEXT_PAGE_DELAY_MS cfg)"
    and sfx: "sfx = [] \<or> sfx = [Sleep (NEXT_PAGE_DELAY_MS cfg)]"
  shows "delayedFrom cfg n (tr @ [Sleep (requestDelay cfg), SearchText q tok] @ sfx)"
  unfolding delayedFrom_def
proof (intro allI impI)
  fix i q' t'
  let ?tr1 = "tr @ [Sleep (requestDelay cfg), SearchText q tok] @ sfx"
  assume i: "n \<le> i \<and> i < length ?tr1" and e: "?tr1 ! i = SearchText q' (Some t')"
  consider (old) "i < length tr" | (a) "i = length tr" | (b) "i = length tr + 1" | (c) "i \<ge> length tr + 2"
    by linarith
  then show "n + 2 \<le> i \<and> ?tr1 ! (i - 2) = Sleep (NEXT_PAGE_DELAY_MS cfg) \<and>
             ?tr1 ! (i - 1) = Sleep (requestDelay cfg)"
  proof cases
    case old
    with e have "tr ! i = SearchText q' (Some t')" by (simp add: nth_append)
    with d i old have "n + 2 \<le> i \<and> tr ! (i - 2) = Sleep (NEXT_PAGE_DELAY_MS cfg) \<and>
             tr ! (i - 1) = Sleep (requestDelay cfg)"
      unfolding delayedFrom_def by blast
    moreover from this old have "i - 2 < length tr" "i - 1 < length tr" by simp_all
    ultimately show ?thesis by (simp only: nth_append if_True) 
  next
    case a
    with e show ?thesis by (simp add: nth_append)
  next
    case b
    with e have tk: "tok = Some t'" by (simp add: nth_append)
    with t have l: "n < length tr" and ls: "last tr = Sleep (NEXT_PAGE_DELAY_MS cfg)" by simp_all
    from l have ne: "tr \<noteq> []" by auto
    from b l have ix: "i - 2 = length tr - 1" "length tr - 1 < length tr" by simp_all
    have "?tr1 ! (i - 2) = tr ! (length tr - 1)"
      by (simp only: ix nth_append if_True)
    also have "\<dots> = last tr" using ne by (simp add: last_conv_nth)
    finally have 1: "?tr1 ! (i - 2) = Sleep (NEXT_PAGE_DELAY_MS cfg)" using ls by simp
    have 2: "?tr1 ! (i - 1) = Sleep (requestDelay cfg)"
      using b by (simp add: nth_append)
    from b l 1 2 show ?thesis by simp
  next
    case c
    with i sfx have "sfx = [Sleep (NEXT_PAGE_DELAY_MS cfg)]" "i = length tr + 2" by auto
    with e show ?thesis by (simp add: nth_append)
  qed
qed

lemma count_append:
  assumes "n \<le> length tr" and "sfx = [] \<or> sfx = [Sleep d]"
  shows "length (filter isSearchText (drop n (tr @ [Sleep r, SearchText q tok] @ sfx))) =
         length (filter isSearchText (drop n tr)) + 1"
  using assms by (auto simp: isSearchText_def)

declare pageLoop.simps [simp del]

lemma pageLoop_unfold:
  "fetchPage cfg src today query pageToken w = (r, w1) \<Longrightarrow>
   pageLoop cfg src today query pageToken pages allClinics w =
     (case r of
        Inl e \<Rightarrow> (Inl e, w1)
      | Inr (next, places) \<Rightarrow>
          if truthy next \<and> pages + 1 < 3
          then pageLoop cfg src today query next (pages + 1) (allClinics @ places) w1
          else (Inr (allClinics @ places), w1))"
  by (subst pageLoop.simps) (simp split: sum.splits)

lemma pageLoop_inv:
  assumes "n \<le> length (trace w)" and "delayedFrom cfg n (trace w)"
    and "truthy tok \<longrightarrow> n < length (trace w) \<and> last (trace w) = Sleep (NEXT_PAGE_DELAY_MS cfg)"
    and "pages < 3"
  shows "take (length (trace w)) (trace (snd (pageLoop cfg src today query tok pages acc w))) = trace w \<and>
         delayedFrom cfg n (trace (snd (pageLoop cfg src today query tok pages acc w))) \<and>
         length (filter isSearchText (drop n (trace (snd (pageLoop cfg src today query tok pages acc w)))))
           \<le> length (filter isSearchText (drop n (trace w))) + (3 - pages)"
  using assms
proof (induction cfg src today query tok pages acc w rule: pageLoop.induct)
  case (1 cfg src today query pageToken pages allClinics w)
  obtain r w1 where fp: "fetchPage cfg src today query pageToken w = (r, w1)"
    by (cases "fetchPage cfg src today query pageToken w")
  let ?sent = "if truthy pageToken then pageToken else None"
  from fetchPage_cases [OF fp]
  consider (limit) "r = Inl limitMessage" "w1 = w"
    | (sent) sfx where "trace w1 = trace w @ [Sleep (requestDelay cfg), SearchText query ?sent] @ sfx"
        "case r of Inl e \<Rightarrow> sfx = []
         | Inr (next, places) \<Rightarrow> sfx = (if truthy next then [Sleep (NEXT_PAGE_DELAY_MS cfg)] else [])"
    by blast
  then show ?case
  proof cases
    case limit
    then have "pageLoop cfg src today query pageToken pages allClinics w = (Inl limitMessage, w)"
      using pageLoop_unfold [OF fp, of pages allClinics] by simp
    then show ?thesis using "1.prems" by simp
  next
    case sent
    have sfx: "sfx = [] \<or> sfx = [Sleep (NEXT_PAGE_DELAY_MS cfg)]"
      using sent(2) by (auto split: sum.splits prod.splits if_splits)
    have st: "?sent \<noteq> None \<longrightarrow> n < length (trace w) \<and> last (trace w) = Sleep (NEXT_PAGE_DELAY_MS cfg)"
      using "1.prems"(3) by auto
    have d1: "delayedFrom cfg n (trace w1)"
      unfolding sent(1) using "1.prems"(2) "1.prems"(1) st sfx by (rule delayedFrom_append)
    have c1: "length (filter isSearchText (drop n (trace w1))) =
              length (filter isSearchText (drop n (trace w))) + 1"
      unfolding sent(1) using "1.prems"(1) sfx by (rule count_append)
    have p1: "take (length (trace w)) (trace w1) = trace w"
      by (simp add: sent(1))
    have n1: "n \<le> length (trace w1)" using "1.prems"(1) by (simp add: sent(1))
    show ?thesis
    proof (cases r)
      case (Inl e)
      then have "pageLoop cfg src today query pageToken pages allClinics w = (Inl e, w1)"
        using pageLoop_unfold [OF fp, of pages allClinics] by simp
      then show ?thesis using d1 c1 p1 "1.prems"(4) by simp
    next
      case (Inr np)
      obtain "next" places where np: "np = (next, places)" by (cases np)
      show ?thesis
      proof (cases "truthy next \<and> pages + 1 < 3")
        case False
        then have "pageLoop cfg src today query pageToken pages allClinics w =
                   (Inr (allClinics @ places), w1)"
          using pageLoop_unfold [OF fp, of pages allClinics] Inr np by auto
        then show ?thesis using d1 c1 p1 "1.prems"(4) by simp
      next
        case True
        have sfx1: "sfx = [Sleep (NEXT_PAGE_DELAY_MS cfg)]"
          using sent(2) Inr np True by simp
        have l1: "truthy next \<longrightarrow> n < length (trace w1) \<and> last (trace w1) = Sleep (NEXT_PAGE_DELAY_MS cfg)"
          using "1.prems"(1) by (simp add: sent(1) sfx1)
        from True have pg: "pages + 1 < 3" by simp
        note ih = "1.IH" [OF fp [symmetric] Inr np [symmetric] True n1 d1 l1 pg]
        have eq: "pageLoop cfg src today query pageToken pages allClinics w =
                  pageLoop cfg src today query next (pages + 1) (allClinics @ places) w1"
          using pageLoop_unfold [OF fp, of pages allClinics] Inr np True by simp
        have "take (length (trace w)) (trace (snd (pageLoop cfg src today query next (pages + 1) (allClinics @ places) w1))) =
              take (length (trace w)) (take (length (trace w1)) (trace (snd (pageLoop cfg src today query next (pages + 1) (allClinics @ places) w1))))"
          by (simp add: sent(1) min_def)
        also have "\<dots> = take (length (trace w)) (trace w1)" using ih by simp
        also have "\<dots> = trace w" by (rule p1)
        finally have pfx: "take (length (trace w)) (trace (snd (pageLoop cfg src today query next (pages + 1) (allClinics @ places) w1))) = trace w" .
        from ih have dl: "delayedFrom cfg n (trace (snd (pageLoop cfg src today query next (pages + 1) (allClinics @ places) w1)))"
          by blast
        from ih have "length (filter isSearchText (drop n (trace (snd (pageLoop cfg src today query next (pages + 1) (allClinics @ places) w1)))))
           \<le> length (filter isSearchText (drop n (trace w1))) + (3 - (pages + 1))"
          by blast
        with c1 pg have cnt: "length (filter isSearchText (drop n (trace (snd (pageLoop cfg src today query next (pages + 1) (allClinics @ places) w1)))))
           \<le> length (filter isSearchText (drop n (trace w))) + (3 - pages)"
          by linarith
        show ?thesis
          unfolding eq using pfx dl cnt by blast
      qed
    qed
  qed
qed


lemma take_prefix_length: "take n ys = xs \<Longrightarrow> n = length xs \<Longrightarrow> length xs \<le> length ys"
  by (metis length_take min.cobounded1 min_def)

lemma queryLoop_inv:
  assumes "n \<le> length (trace w)" and "delayedFrom cfg n (trace w)"
  shows "take (length (trace w)) (trace (snd (queryLoop cfg src today queries acc w))) = trace w \<and>
         delayedFrom cfg n (trace (snd (queryLoop cfg src today queries acc w))) \<and>
         length (filter isSearchText (drop n (trace (snd (queryLoop cfg src today queries acc w)))))
           \<le> length (filter isSearchText (drop n (trace w))) + 3 * length queries"
  using assms
proof (induction queries arbitrary: acc w)
  case Nil
  then show ?case by simp
next
  case (Cons query queries)
  obtain r w1 where pl: "pageLoop cfg src today query None 0 acc w = (r, w1)"
    by (cases "pageLoop cfg src today query None 0 acc w")
  from pageLoop_inv [of n w cfg None 0 src today query acc] Cons.prems pl
  have p1: "take (length (trace w)) (trace w1) = trace w"
    and d1: "delayedFrom cfg n (trace w1)"
    and c1: "length (filter isSearchText (drop n (trace w1)))
               \<le> length (filter isSearchText (drop n (trace w))) + 3"
    by simp_all
  from p1 have l1: "length (trace w) \<le> length (trace w1)"
    by (rule take_prefix_length) simp
  show ?case
  proof (cases r)
    case (Inl e)
    then show ?thesis using pl p1 d1 c1 by simp
  next
    case (Inr acc1)
    from l1 Cons.prems(1) have n1: "n \<le> length (trace w1)" by simp
    note ih = Cons.IH [OF n1 d1, of acc1]
    have eq: "queryLoop cfg src today (query # queries) acc w = queryLoop cfg src today queries acc1 w1"
      using pl Inr by simp
    have "take (length (trace w)) (trace (snd (queryLoop cfg src today queries acc1 w1))) =
          take (length (trace w)) (take (length (trace w1)) (trace (snd (queryLoop cfg src today queries acc1 w1))))"
      using l1 by (simp add: min_def)
    also have "\<dots> = trace w" using ih p1 by simp
    finally have pfx: "take (length (trace w)) (trace (snd (queryLoop cfg src today queries acc1 w1))) = trace w" .
    from ih have dl: "delayedFrom cfg n (trace (snd (queryLoop cfg src today queries acc1 w1)))" by blast
    from ih have "length (filter isSearchText (drop n (trace (snd (queryLoop cfg src today queries acc1 w1)))))
           \<le> length (filter isSearchText (drop n (trace w1))) + 3 * length queries" by blast
    with c1 have cnt: "length (filter isSearchText (drop n (trace (snd (queryLoop cfg src today queries acc1 w1)))))
           \<le> length (filter isSearchText (drop n (trace w))) + 3 * length (query # queries)"
      by simp
    show ?thesis unfolding eq using pfx dl cnt by blast
  qed
qed

lemma new_events:
  assumes p: "take (length tr) tr' = tr" and d: "delayedFrom cfg (length tr) tr'"
    and c: "length (filter isSearchText (drop (length tr) tr')) \<le> k"
  shows "\<exists>evs. tr' = tr @ evs \<and> length (filter isSearchText evs) \<le> k \<and>
           (\<forall>i<length evs. \<forall>q t. evs ! i = SearchText q (Some t) \<longrightarrow>
              2 \<le> i \<and> evs ! (i - 2) = Sleep (NEXT_PAGE_DELAY_MS cfg) \<and>
              evs ! (i - 1) = Sleep (requestDelay cfg))"
proof -
  define evs where "evs = drop (length tr) tr'"
  have eq: "tr' = tr @ evs"
    using p append_take_drop_id [of "length tr" tr'] by (simp add: evs_def)
  have "\<forall>i<length evs. \<forall>q t. evs ! i = SearchText q (Some t) \<longrightarrow>
              2 \<le> i \<and> evs ! (i - 2) = Sleep (NEXT_PAGE_DELAY_MS cfg) \<and>
              evs ! (i - 1) = Sleep (requestDelay cfg)"
  proof (intro allI impI)
    fix i q t
    assume i: "i < length evs" and e: "evs ! i = SearchText q (Some t)"
    have "tr' ! (length tr + i) = SearchText q (Some t)"
      using e by (simp add: eq)
    moreover have "length tr \<le> length tr + i \<and> length tr + i < length tr'"
      using i by (simp add: eq)
    ultimately have r: "length tr + 2 \<le> length tr + i \<and>
        tr' ! (length tr + i - 2) = Sleep (NEXT_PAGE_DELAY_MS cfg) \<and>
        tr' ! (length tr + i - 1) = Sleep (requestDelay cfg)"
      using d unfolding delayedFrom_def by blast
    then have i2: "2 \<le> i" by simp
    from r have a: "tr' ! (length tr + i - 2) = Sleep (NEXT_PAGE_DELAY_MS cfg)"
      and b: "tr' ! (length tr + i - 1) = Sleep (requestDelay cfg)" by blast+
    from i2 have ix: "length tr + (i - 2) = length tr + i - 2" "length tr + (i - 1) = length tr + i - 1"
      by simp_all
    have "evs ! (i - 2) = tr' ! (length tr + (i - 2))" "evs ! (i - 1) = tr' ! (length tr + (i - 1))"
      by (simp_all only: eq nth_append_length_plus)
    then have "evs ! (i - 2) = Sleep (NEXT_PAGE_DELAY_MS cfg)" "evs ! (i - 1) = Sleep (requestDelay cfg)"
      using a b by (simp_all only: ix)
    with i2 show "2 \<le> i \<and> evs ! (i - 2) = Sleep (NEXT_PAGE_DELAY_MS cfg) \<and>
              evs ! (i - 1) = Sleep (requestDelay cfg)" by simp
  qed
  with eq c show ?thesis unfolding evs_def [symmetric] by blast
qed

lemma delayedFrom_end: "delayedFrom cfg (length tr) tr"
  by (auto simp: delayedFrom_def)

text \<open>
  C9. The pagination loop of a query, started without a token, adds events to the run
  among which at most three are requests; every request that carries a continuation
  token is the third of three events in a row: the pause \<open>NEXT_PAGE_DELAY_MS\<close>, the pause
  of the budget check, the request. The loop is a total function (its termination is
  proved with the definition), whatever tokens the source returns. The three queries of
  a city make at most nine requests, with the same pauses.
\<close>

theorem pagination_capped:
  "(\<exists>evs. trace (snd (pageLoop cfg src today query None 0 acc w)) = trace w @ evs \<and>
      length (filter isSearchText evs) \<le> 3 \<and>
      (\<forall>i<length evs. \<forall>q t. evs ! i = SearchText q (Some t) \<longrightarrow>
          2 \<le> i \<and> evs ! (i - 2) = Sleep (NEXT_PAGE_DELAY_MS cfg) \<and>
          evs ! (i - 1) = Sleep (requestDelay cfg))) \<and>
   (\<exists>evs. trace (snd (textSearchCity cfg src today cityName stateCode w)) = trace w @ evs \<and>
      length (filter isSearchText evs) \<le> 9 \<and>
      (\<forall>i<length evs. \<forall>q t. evs ! i = SearchText q (Some t) \<longrightarrow>
          2 \<le> i \<and> evs ! (i - 2) = Sleep (NEXT_PAGE_DELAY_MS cfg) \<and>
          evs ! (i - 1) = Sleep (requestDelay cfg)))"
proof
  have "take (length (trace w)) (trace (snd (pageLoop cfg src today query None 0 acc w))) = trace w \<and>
        delayedFrom cfg (length (trace w)) (trace (snd (pageLoop cfg src today query None 0 acc w))) \<and>
        length (filter isSearchText (drop (length (trace w)) (trace (snd (pageLoop cfg src today query None 0 acc w)))))
          \<le> length (filter isSearchText (drop (length (trace w)) (trace w))) + (3 - 0)"
    by (rule pageLoop_inv) (simp_all add: delayedFrom_end)
  then show "\<exists>evs. trace (snd (pageLoop cfg src today query None 0 acc w)) = trace w @ evs \<and>
      length (filter isSearchText evs) \<le> 3 \<and>
      (\<forall>i<length evs. \<forall>q t. evs ! i = SearchText q (Some t) \<longrightarrow>
          2 \<le> i \<and> evs ! (i - 2) = Sleep (NEXT_PAGE_DELAY_MS cfg) \<and>
          evs ! (i - 1) = Sleep (requestDelay cfg))"
    by (intro new_events) simp_all
next
  have "take (length (trace w)) (trace (snd (queryLoop cfg src today (cityQueries cityName stateCode) [] w))) = trace w \<and>
        delayedFrom cfg (length (trace w)) (trace (snd (queryLoop cfg src today (cityQueries cityName stateCode) [] w))) \<and>
        length (filter isSearchText (drop (length (trace w)) (trace (snd (queryLoop cfg src today (cityQueries cityName stateCode) [] w)))))
          \<le> length (filter isSearchText (drop (length (trace w)) (trace w))) + 3 * length (cityQueries cityName stateCode)"
    by (rule queryLoop_inv) (simp_all add: delayedFrom_end)
  then show "\<exists>evs. trace (snd (textSearchCity cfg src today cityName stateCode w)) = trace w @ evs \<and>
      length (filter isSearchText evs) \<le> 9 \<and>
      (\<forall>i<length evs. \<forall>q t. evs ! i = SearchText q (Some t) \<longrightarrow>
          2 \<le> i \<and> evs ! (i - 2) = Sleep (NEXT_PAGE_DELAY_MS cfg) \<and>
          evs ! (i - 1) = Sleep (requestDelay cfg))"
    unfolding textSearchCity_def by (intro new_events) (simp_all add: cityQueries_def)
qed

lemma pageLoop_alwaysMore:
  "trace (snd (pageLoop defaults alwaysMore ''2025-01-15'' ''skin clinic Austin TX'' None 0 [] startWorld)) =
     [Sleep 334, SearchText ''skin clinic Austin TX'' None, Sleep 1200,
      Sleep 334, SearchText ''skin clinic Austin TX'' (Some ''token''), Sleep 1200,
      Sleep 334, SearchText ''skin clinic Austin TX'' (Some ''token''), Sleep 1200]"
  by (simp add: pageLoop.simps fetchPage_def checkRequestLimit_def sleep_def defaults_def
      alwaysMore_def startWorld_def requestDelay_def acceptedClinics_def List.map_filter_simps)

text \<open>
  The claim at a source that returns a next page token for ever: three requests, and the
  second request (position 4) has the two pauses before it.
\<close>

theorem pagination_capped_witness:
  "trace (snd (pageLoop defaults alwaysMore ''2025-01-15'' ''skin clinic Austin TX'' None 0 []
            startWorld)) =
     [Sleep 334, SearchText ''skin clinic Austin TX'' None, Sleep 1200,
      Sleep 334, SearchText ''skin clinic Austin TX'' (Some ''token''), Sleep 1200,
      Sleep 334, SearchText ''skin clinic Austin TX'' (Some ''token''), Sleep 1200] \<and>
   [Sleep 334, SearchText ''skin clinic Austin TX'' None, Sleep 1200,
    Sleep 334, SearchText ''skin clinic Austin TX'' (Some ''token''), Sleep 1200,
    Sleep 334, SearchText ''skin clinic Austin TX'' (Some ''token''), Sleep 1200] ! 2 =
     Sleep (NEXT_PAGE_DELAY_MS defaults) \<and>
   [Sleep 334, SearchText ''skin clinic Austin TX'' None, Sleep 1200,
    Sleep 334, SearchText ''skin clinic Austin TX'' (Some ''token''), Sleep 1200,
    Sleep 334, SearchText ''skin clinic Austin TX'' (Some ''token''), Sleep 1200] ! 3 =
     Sleep (requestDelay defaults)"
proof -
  let ?evs = "[Sleep 334, SearchText ''skin clinic Austin TX'' None, Sleep 1200,
      Sleep 334, SearchText ''skin clinic Austin TX'' (Some ''token''), Sleep 1200,
      Sleep 334, SearchText ''skin clinic Austin TX'' (Some ''token''), Sleep 1200]"
  from pagination_capped [of defaults alwaysMore "''2025-01-15''" "''skin clinic Austin TX''" "[]"
      startWorld]
  obtain evs where
    t: "trace (snd (pageLoop defaults alwaysMore ''2025-01-15'' ''skin clinic Austin TX'' None 0 []
                 startWorld)) = trace startWorld @ evs"
    and d: "\<forall>i<length evs. \<forall>q t. evs ! i = SearchText q (Some t) \<longrightarrow>
          2 \<le> i \<and> evs ! (i - 2) = Sleep (NEXT_PAGE_DELAY_MS defaults) \<and>
          evs ! (i - 1) = Sleep (requestDelay defaults)"
    by blast
  have ts: "trace startWorld = []" by (simp add: startWorld_def)
  from t have e: "evs = ?evs"
    unfolding pageLoop_alwaysMore ts by simp
  from d have "4 < length evs \<longrightarrow>
      (\<forall>q t. evs ! 4 = SearchText q (Some t) \<longrightarrow>
          2 \<le> (4::nat) \<and> evs ! (4 - 2) = Sleep (NEXT_PAGE_DELAY_MS defaults) \<and>
          evs ! (4 - 1) = Sleep (requestDelay defaults))"
    by (rule spec)
  moreover have "4 < length ?evs" by simp
  moreover have "?evs ! 4 = SearchText ''skin clinic Austin TX'' (Some ''token'')" by simp
  ultimately have "?evs ! (4 - 2) = Sleep (NEXT_PAGE_DELAY_MS defaults) \<and>
                   ?evs ! (4 - 1) = Sleep (requestDelay defaults)"
    unfolding e by blast
  then show ?thesis using pageLoop_alwaysMore by simp
qed

section \<open>The client pipeline\<close>

lemma trim_Nil [simp]: "trim [] = []"
  by (simp add: trim_def)

lemma handleSearch_blank:
  "trim query = [] \<Longrightarrow> handleSearch query st = st\<lparr>filteredClinics := clinics st\<rparr>"
  by (simp add: handleSearch_def setFilteredClinics_def)

lemma handleSearch_nonblank:
  "trim query \<noteq> [] \<Longrightarrow>
   handleSearch query st =
     st\<lparr>heap := heap st @
          [filter (\<lambda>clinic. if isZipCode (trim query) then postal_code clinic = Some (trim query)
                      else str_includes (searchableText clinic) (toLowerCase (trim query)))
             (heap st ! clinics st)],
        filteredClinics := length (heap st)\<rparr>"
  by (auto simp add: handleSearch_def setFilteredClinics_def Let_def newArray_def)

lemma isZipCode_nonempty: "isZipCode s \<Longrightarrow> s \<noteq> []"
  by (auto simp: isZipCode_def)

lemma postal_codes:
  "postal_code beverlyHills = Some ''90210''" "postal_code sunsetSkin = Some ''90069''"
  "postal_code pasadenaSkin = None"
  by (simp_all add: beverlyHills_def sunsetSkin_def pasadenaSkin_def clinicOf_def)

lemma searchedPage_eq:
  "searchedPage =
     \<lparr> heap = [[beverlyHills, sunsetSkin, pasadenaSkin], [beverlyHills]],
       clinics = 0, filteredClinics = 1, filters = noFilters \<rparr>"
proof -
  have t: "trim ''90210'' = ''90210''" by (simp add: trim_def isSpace_def)
  have z: "isZipCode ''90210''" by (simp add: isZipCode_def isDigit_def)
  show ?thesis
    unfolding searchedPage_def
    by (simp add: handleSearch_nonblank t z loadedPage_def postal_codes)
qed

text \<open>
  C6. When the trimmed query is five digits, the displayed list after the text search is
  the source list filtered by equality of the postal code with the trimmed query: the
  records with that postal code, all of them, in their order, and no other.
\<close>

theorem zip_search_exact:
  assumes "isZipCode (trim query)"
  shows "heap (handleSearch query st) ! filteredClinics (handleSearch query st) =
         filter (\<lambda>c. postal_code c = Some (trim query)) (heap st ! clinics st)"
proof -
  from assms have "trim query \<noteq> []" by (rule isZipCode_nonempty)
  then show ?thesis using assms by (simp add: handleSearch_nonblank)
qed

text \<open>
  The search for 90210, with blanks around it, on the loaded page: the second clinic has
  90210 in its name and address and the postal code 90069, and is left out.
\<close>

theorem zip_search_exact_witness:
  "isZipCode (trim '' 90210  '') \<and>
   heap loadedPage ! clinics loadedPage = [beverlyHills, sunsetSkin, pasadenaSkin] \<and>
   str_includes (searchableText sunsetSkin) ''90210'' \<and>
   heap (handleSearch '' 90210  '' loadedPage) ! filteredClinics (handleSearch '' 90210  '' loadedPage) =
     [beverlyHills]"
proof -
  have t: "trim '' 90210  '' = ''90210''"
    by (simp add: trim_def isSpace_def)
  have z: "isZipCode (trim '' 90210  '')"
    by (simp add: t isZipCode_def isDigit_def)
  have src: "heap loadedPage ! clinics loadedPage = [beverlyHills, sunsetSkin, pasadenaSkin]"
    by (simp add: loadedPage_def)
  have inc: "str_includes (searchableText sunsetSkin) ''90210''"
    by (simp add: searchableText_def sunsetSkin_def clinicOf_def toLowerCase_def lowerChar_def
        nl_def)
  show ?thesis
    using zip_search_exact [OF z, of loadedPage] z inc
    by (simp add: src postal_codes t)
qed

text \<open>
  C10. A text search with an empty query, or one of white space only, sets the displayed
  list to the source list: every record, in the original order.
\<close>

theorem blank_search_restores:
  assumes "query = [] \<or> trim query = []"
  shows "heap (handleSearch query st) ! filteredClinics (handleSearch query st) =
           heap st ! clinics st \<and>
         filteredClinics (handleSearch query st) = clinics st \<and>
         heap (handleSearch query st) = heap st \<and>
         clinics (handleSearch query st) = clinics st"
proof -
  from assms have "trim query = []" by auto
  then show ?thesis by (simp add: handleSearch_blank)
qed

text \<open>A query of three blanks on the page that displays the result of the search for 90210.\<close>

theorem blank_search_restores_witness:
  "(''   '' = [] \<or> trim ''   '' = []) \<and>
   heap searchedPage ! filteredClinics searchedPage = [beverlyHills] \<and>
   heap (handleSearch ''   '' searchedPage) ! filteredClinics (handleSearch ''   '' searchedPage) =
     [beverlyHills, sunsetSkin, pasadenaSkin]"
proof -
  have t: "''   '' = [] \<or> trim ''   '' = []"
    by (simp add: trim_def isSpace_def)
  show ?thesis
    using blank_search_restores [OF t, of searchedPage] t
    by (simp add: searchedPage_eq)
qed

subsection \<open>Location search\<close>

lemma insertSorted_key:
  assumes "distance x = Some (d x)" and "\<forall>y\<in>set ys. distance y = Some (d y)"
  shows "insertSorted byDistance x ys = insort_key d x ys"
  using assms by (induction ys) (auto simp: byDistance_def)

lemma jsSort_key:
  assumes "\<forall>y\<in>set xs. distance y = Some (d y)"
  shows "jsSort byDistance xs = sort_key d xs"
  using assms
proof (induction xs)
  case Nil
  show ?case by (simp add: jsSort_def)
next
  case (Cons x xs)
  then have ih: "jsSort byDistance xs = sort_key d xs" by simp
  have "insertSorted byDistance x (sort_key d xs) = insort_key d x (sort_key d xs)"
    using Cons.prems by (intro insertSorted_key) auto
  then show ?case using ih by (simp add: jsSort_def sort_key_def)
qed

lemma handleLocationSearch_eq:
  "handleLocationSearch calc lat lng st =
     st\<lparr>heap := heap st @
          [jsSort byDistance
             (map (\<lambda>c. c\<lparr>distance := Some (calc (lat, lng) (location c))\<rparr>) (heap st ! clinics st))],
        filteredClinics := length (heap st)\<rparr>"
  by (simp add: handleLocationSearch_def newArray_def sortInPlace_def setFilteredClinics_def
      list_update_append)

text \<open>
  C7. After a location search the displayed list holds the records of the source list,
  each with the field \<open>distance\<close> set to \<open>calculateDistance\<close> of the reference point and
  the location of the record, in ascending order of that distance. The arrays that
  existed before, the source list among them, are as they were: the records of the
  source list have the \<open>distance\<close> they had, none when they came from the collection.
  \<open>calculateDistance\<close> is the parameter \<open>calc\<close>; distances are real numbers.
\<close>

theorem location_search_sorted:
  "(let st' = handleLocationSearch calc lat lng st;
        result = heap st' ! filteredClinics st';
        d = (\<lambda>c::Clinic. calc (lat, lng) (location c))
    in mset result = mset (map (\<lambda>c. c\<lparr>distance := Some (d c)\<rparr>) (heap st ! clinics st)) \<and>
       map distance result = map (\<lambda>c. Some (d c)) result \<and>
       sorted (map d result) \<and>
       take (length (heap st)) (heap st') = heap st \<and> clinics st' = clinics st)"
proof -
  define d where "d = (\<lambda>c::Clinic. calc (lat, lng) (location c))"
  define xs where "xs = map (\<lambda>c. c\<lparr>distance := Some (d c)\<rparr>) (heap st ! clinics st)"
  have all: "\<forall>y\<in>set xs. distance y = Some (d y)"
    by (auto simp: xs_def d_def)
  have srt: "jsSort byDistance xs = sort_key d xs"
    using all by (rule jsSort_key)
  have res: "heap (handleLocationSearch calc lat lng st) !
               filteredClinics (handleLocationSearch calc lat lng st) = sort_key d xs"
    using srt by (simp add: handleLocationSearch_eq xs_def d_def)
  have m: "mset (sort_key d xs) = mset xs" by simp
  have s: "sorted (map d (sort_key d xs))" by (rule sorted_sort_key)
  have a: "map distance (sort_key d xs) = map (\<lambda>c. Some (d c)) (sort_key d xs)"
    using all by simp
  have fr: "take (length (heap st)) (heap (handleLocationSearch calc lat lng st)) = heap st \<and>
            clinics (handleLocationSearch calc lat lng st) = clinics st"
    by (simp add: handleLocationSearch_eq)
  have "mset (sort_key d xs) = mset xs \<and>
        map distance (sort_key d xs) = map (\<lambda>c. Some (d c)) (sort_key d xs) \<and>
        sorted (map d (sort_key d xs)) \<and>
        take (length (heap st)) (heap (handleLocationSearch calc lat lng st)) = heap st \<and>
        clinics (handleLocationSearch calc lat lng st) = clinics st"
    using m s a fr by blast
  then show ?thesis
    unfolding Let_def res xs_def d_def .
qed

subsection \<open>The source list is never written to\<close>

lemma keeps_length: "keeps st fs \<Longrightarrow> length (heap st) \<le> length (heap (snd fs))"
proof -
  assume "keeps st fs"
  then have "length (take (length (heap st)) (heap (snd fs))) = length (heap st)"
    by (simp add: keeps_def)
  then show ?thesis by simp
qed

lemma keeps_init: "keeps st (newArray xs st)"
  by (simp add: keeps_def newArray_def)

lemma keeps_newArray: "keeps st fs \<Longrightarrow> keeps st (newArray xs (snd fs))"
  using keeps_length [of st fs] by (simp add: keeps_def newArray_def)

lemma keeps_filterStep: "keeps st fs \<Longrightarrow> keeps st (filterStep c p fs)"
  by (simp add: filterStep_def keeps_newArray)

lemma keeps_sort: "keeps st fs \<Longrightarrow> keeps st (fst fs, sortInPlace cmp (fst fs) (snd fs))"
  by (simp add: keeps_def sortInPlace_def)

lemma keeps_applyFilters:
  "\<exists>fs. keeps st fs \<and> applyFilters st = setFilteredClinics (fst fs) (snd fs)"
proof -
  define f where "f = filters st"
  define s7 where "s7 =
    filterStep (case states f of None \<Rightarrow> False | Some ss \<Rightarrow> length ss > 0)
      (\<lambda>c. truthy (state_code c) \<and>
           (case (state_code c, states f) of (Some sc, Some ss) \<Rightarrow> sc \<in> set ss | _ \<Rightarrow> False))
      (filterStep (flagSet (open_now f))
         (\<lambda>c. current_open_now c = Some True \<or>
              (case opening_hours c of None \<Rightarrow> False | Some oh \<Rightarrow> oh_open_now oh = Some True))
         (filterStep (flagSet (free_parking f))
            (\<lambda>c. flagTrue (parking_options c) ''free_parking_lot'')
            (filterStep (flagSet (wheelchair_accessible f))
               (\<lambda>c. flagTrue (accessibility_options c) ''wheelchair_accessible_entrance'')
               (filterStep (flagSet (has_phone f))
                  (\<lambda>c. truthy (phone c) \<and> trim (orEmpty (phone c)) \<noteq> [])
                  (filterStep (flagSet (has_website f))
                     (\<lambda>c. truthy (website c) \<and> trim (orEmpty (website c)) \<noteq> [])
                     (filterStep (rating_min f \<noteq> None \<and> rating_min f \<noteq> Some 0)
                        (\<lambda>c. orZero (rating c) \<ge> orZero (rating_min f))
                        (newArray (heap st ! clinics st) st)))))))"
  define s8 where "s8 =
    (if truthy (sort_by f) then (fst s7, sortInPlace (sortComparator f) (fst s7) (snd s7)) else s7)"
  have k7: "keeps st s7"
    unfolding s7_def by (intro keeps_filterStep keeps_init)
  have k8: "keeps st s8"
    unfolding s8_def using k7 by (simp add: keeps_sort)
  have "applyFilters st = setFilteredClinics (fst s8) (snd s8)"
    unfolding applyFilters_def Let_def s8_def s7_def f_def by (rule refl)
  with k8 show ?thesis by blast
qed

lemma applyFilters_frame:
  "take (length (heap st)) (heap (applyFilters st)) = heap st \<and>
   clinics (applyFilters st) = clinics st \<and>
   length (heap st) \<le> filteredClinics (applyFilters st) \<and>
   filteredClinics (applyFilters st) < length (heap (applyFilters st))"
proof -
  obtain fs where k: "keeps st fs" and eq: "applyFilters st = setFilteredClinics (fst fs) (snd fs)"
    using keeps_applyFilters by blast
  show ?thesis using k by (simp add: eq setFilteredClinics_def keeps_def)
qed

text \<open>
  C8, as the claim states it, fails in its last part: a text search with an empty query
  sets \<open>filteredClinics\<close> to the array of \<open>clinics\<close> itself. On the page that displays the
  result of a search (an array of its own), the empty search makes the displayed list the
  very array of the source list, not a new one.
\<close>

theorem blank_search_same_array:
  "clinics searchedPage < length (heap searchedPage) \<and>
   filteredClinics searchedPage \<noteq> clinics searchedPage \<and>
   filteredClinics (handleSearch [] searchedPage) = clinics (handleSearch [] searchedPage)"
  by (simp add: handleSearch_blank searchedPage_eq)

text \<open>
  C8, amended. The arrays of a page are those at the addresses below
  \<open>length (heap st)\<close>. After a text search, a location search or \<open>applyFilters\<close> every one
  of them holds the elements it held, in their order, and \<open>clinics\<close> is the address it
  was: the source list is never written to. The displayed list is an array made by the
  operation, at an address from \<open>length (heap st)\<close> on, except after a text search with an
  empty or blank query, which displays the array of the source list itself.
\<close>

theorem source_list_kept:
  "take (length (heap st)) (heap (handleSearch query st)) = heap st \<and>
   clinics (handleSearch query st) = clinics st \<and>
   filteredClinics (handleSearch query st) =
     (if trim query = [] then clinics st else length (heap st)) \<and>
   take (length (heap st)) (heap (handleLocationSearch calc lat lng st)) = heap st \<and>
   clinics (handleLocationSearch calc lat lng st) = clinics st \<and>
   filteredClinics (handleLocationSearch calc lat lng st) = length (heap st) \<and>
   take (length (heap st)) (heap (applyFilters st)) = heap st \<and>
   clinics (applyFilters st) = clinics st \<and>
   length (heap st) \<le> filteredClinics (applyFilters st) \<and>
   filteredClinics (applyFilters st) < length (heap (applyFilters st))"
proof -
  have s: "take (length (heap st)) (heap (handleSearch query st)) = heap st \<and>
     clinics (handleSearch query st) = clinics st \<and>
     filteredClinics (handleSearch query st) =
       (if trim query = [] then clinics st else length (heap st))"
    by (cases "trim query = []") (simp_all add: handleSearch_blank handleSearch_nonblank)
  have l: "take (length (heap st)) (heap (handleLocationSearch calc lat lng st)) = heap st \<and>
     clinics (handleLocationSearch calc lat lng st) = clinics st \<and>
     filteredClinics (handleLocationSearch calc lat lng st) = length (heap st)"
    by (simp add: handleLocationSearch_eq)
  show ?thesis using s l applyFilters_frame [of st] by blast
qed

section \<open>The aggregation\<close>

lemma set_setAdd [simp]: "set (setAdd x xs) = insert x (set xs)"
  by (auto simp: setAdd_def)

lemma distinct_setAdd [simp]: "distinct (setAdd x xs) = distinct xs"
  by (auto simp: setAdd_def)

lemma set_fold_setAdd [simp]: "set (fold setAdd ys xs) = set ys \<union> set xs"
  by (induction ys arbitrary: xs) auto

lemma distinct_fold_setAdd [simp]: "distinct (fold setAdd ys xs) = distinct xs"
  by (induction ys arbitrary: xs) auto

lemma fold_setAdd_known: "set ys \<subseteq> set xs \<Longrightarrow> fold setAdd ys xs = xs"
  by (induction ys arbitrary: xs) (auto simp: setAdd_def)

lemma mergeIds_props:
  "distinct (mergeIds gridIds cityIds) \<and>
   set (mergeIds gridIds cityIds) = set gridIds \<union> set cityIds \<and>
   fold setAdd cityIds (fold setAdd gridIds (mergeIds gridIds cityIds)) = mergeIds gridIds cityIds"
proof -
  have 1: "fold setAdd gridIds (mergeIds gridIds cityIds) = mergeIds gridIds cityIds"
    by (rule fold_setAdd_known) (auto simp: mergeIds_def)
  have 2: "fold setAdd cityIds (mergeIds gridIds cityIds) = mergeIds gridIds cityIds"
    by (rule fold_setAdd_known) (auto simp: mergeIds_def)
  show ?thesis using 1 2 by (auto simp: mergeIds_def)
qed

lemma parse_cases:
  "(fst (parseClinicFromPlace p s) = None \<and> parsedId p = None) \<or>
   (\<exists>c. fst (parseClinicFromPlace p s) = Some c \<and> parsedId p = Some (b_id c))"
  by (simp add: parseClinicFromPlace_def parsedId_def Let_def)

lemma keys_mapSet: "map fst (mapSet k v m) = setAdd k (map fst m)"
  by (induction m) (auto simp: setAdd_def)

lemma ids_mapSet:
  "map b_id (map snd m) = map fst m \<Longrightarrow> b_id v = k \<Longrightarrow>
   map b_id (map snd (mapSet k v m)) = map fst (mapSet k v m)"
  by (induction m) auto

lemma forEachPlace_keys:
  "map fst (fst (forEachPlace ps m s)) = fold setAdd (List.map_filter parsedId ps) (map fst m)"
proof (induction ps arbitrary: m s)
  case Nil
  show ?case by (simp add: map_filter_simps)
next
  case (Cons p ps)
  obtain r s1 where pr: "parseClinicFromPlace p s = (r, s1)" by (cases "parseClinicFromPlace p s")
  from parse_cases [of p s] pr
  consider "r = None" "parsedId p = None" | c where "r = Some c" "parsedId p = Some (b_id c)"
    by auto
  then show ?case
  proof cases
    case 1
    then show ?thesis using pr Cons.IH [of m s1] by (simp add: map_filter_simps)
  next
    case 2
    then show ?thesis using pr Cons.IH [of "mapSet (b_id c) c m" s1]
      by (simp add: map_filter_simps keys_mapSet)
  qed
qed

lemma forEachPlace_ids:
  "map b_id (map snd m) = map fst m \<Longrightarrow>
   map b_id (map snd (fst (forEachPlace ps m s))) = map fst (fst (forEachPlace ps m s))"
proof (induction ps arbitrary: m s)
  case Nil
  then show ?case by simp
next
  case (Cons p ps)
  obtain r s1 where pr: "parseClinicFromPlace p s = (r, s1)" by (cases "parseClinicFromPlace p s")
  show ?case
  proof (cases r)
    case None
    then show ?thesis using pr Cons by simp
  next
    case (Some c)
    have "map b_id (map snd (mapSet (b_id c) c m)) = map fst (mapSet (b_id c) c m)"
      using Cons.prems by (rule ids_mapSet) simp
    then show ?thesis using pr Some Cons.IH [of "mapSet (b_id c) c m" s1] by simp
  qed
qed


lemma forEachPlace_again:
  "map fst (fst (forEachPlace ps (fst (forEachPlace ps m s)) s2)) = map fst (fst (forEachPlace ps m s))"
proof -
  have "map fst (fst (forEachPlace ps (fst (forEachPlace ps m s)) s2)) =
        fold setAdd (List.map_filter parsedId ps) (fold setAdd (List.map_filter parsedId ps) (map fst m))"
    by (simp only: forEachPlace_keys)
  also have "\<dots> = fold setAdd (List.map_filter parsedId ps) (map fst m)"
    by (rule fold_setAdd_known) simp
  also have "\<dots> = map fst (fst (forEachPlace ps m s))"
    by (simp only: forEachPlace_keys)
  finally show ?thesis .
qed

lemma forEachPlace_distinct:
  "distinct (map fst m) \<Longrightarrow> distinct (map fst (fst (forEachPlace ps m s)))"
  by (simp add: forEachPlace_keys)

lemma keyed_Nil: "keyed []"
  by (simp add: keyed_def)

lemma keyed_forEachPlace: "keyed m \<Longrightarrow> keyed (fst (forEachPlace ps m s))"
  unfolding keyed_def using forEachPlace_distinct forEachPlace_ids by blast

lemma keyed_ids: "keyed m \<Longrightarrow> distinct (map b_id (map snd m))"
  unfolding keyed_def by metis

lemma keyed_queryLoop_all:
  "keyed m \<Longrightarrow> (case fst (queryLoop_all src queries m s) of Inl e \<Rightarrow> True | Inr m1 \<Rightarrow> keyed m1)"
proof (induction queries arbitrary: m s)
  case Nil
  then show ?case by simp
next
  case (Cons query queries)
  obtain r s1 where mr: "makeRequest s = (r, s1)" by (cases "makeRequest s")
  show ?case
  proof (cases r)
    case (Inl e)
    then show ?thesis using mr by simp
  next
    case (Inr u)
    show ?thesis
    proof (cases "src (totalRequests s1)")
      case (Rejected msg)
      then show ?thesis using mr Inr Cons.IH [OF Cons.prems, of s1] by simp
    next
      case (Status st)
      then show ?thesis using mr Inr Cons.IH [OF Cons.prems, of s1] by simp
    next
      case (Places ps nxt)
      obtain m1 s2 where fe: "forEachPlace (case ps of None \<Rightarrow> [] | Some l \<Rightarrow> l) m s1 = (m1, s2)"
        by (cases "forEachPlace (case ps of None \<Rightarrow> [] | Some l \<Rightarrow> l) m s1")
      from keyed_forEachPlace [OF Cons.prems, of "case ps of None \<Rightarrow> [] | Some l \<Rightarrow> l" s1] fe
      have "keyed m1" by simp
      from Cons.IH [OF this, of s2] show ?thesis using mr Inr Places fe by simp
    qed
  qed
qed

lemma keyed_cityLoop_all:
  "keyed m \<Longrightarrow> (case fst (cityLoop_all src cs m s) of Inl e \<Rightarrow> True | Inr m1 \<Rightarrow> keyed m1)"
proof (induction cs arbitrary: m s)
  case Nil
  then show ?case by simp
next
  case (Cons c cs)
  obtain r s1 where ql: "queryLoop_all src queries_all m s = (r, s1)"
    by (cases "queryLoop_all src queries_all m s")
  show ?case
  proof (cases r)
    case (Inl e)
    then show ?thesis using ql by simp
  next
    case (Inr m1)
    from keyed_queryLoop_all [OF Cons.prems, of src queries_all s] ql Inr
    have "keyed m1" by simp
    from Cons.IH [OF this, of s1] show ?thesis using ql Inr by simp
  qed
qed

text \<open>
  What holds at merge time. In the comprehensive script the identifiers of the two
  strategies are merged into the set \<open>allClinicIds\<close>: no identifier is in it twice, it
  has the identifiers of both strategies, and merging the same two streams into it once
  more leaves it as it is. In the batch script the clinics of all queries are set in a map
  under their identifier: the array of its values has no two clinics with the same
  identifier, its identifiers are those of the places that parse to a clinic (each of
  them is there), a second run of the same stream of places into the map leaves its size
  and its set of identifiers as they are, and the same holds of the map at the end of the
  loops over the cities of a state, whatever the source answers.
\<close>

lemma merge_time_one_per_id:
  "distinct (mergeIds gridIds cityIds) \<and>
   set (mergeIds gridIds cityIds) = set gridIds \<union> set cityIds \<and>
   fold setAdd cityIds (fold setAdd gridIds (mergeIds gridIds cityIds)) = mergeIds gridIds cityIds \<and>
   distinct (map b_id (map snd (fst (forEachPlace places [] s)))) \<and>
   set (map b_id (map snd (fst (forEachPlace places [] s)))) =
     set (List.map_filter parsedId places) \<and>
   length (fst (forEachPlace places (fst (forEachPlace places [] s)) s2)) =
     length (fst (forEachPlace places [] s)) \<and>
   set (map b_id (map snd (fst (forEachPlace places (fst (forEachPlace places [] s)) s2)))) =
     set (map b_id (map snd (fst (forEachPlace places [] s)))) \<and>
   (case fst (cityLoop_all src cs [] s3) of
      Inl e \<Rightarrow> True
    | Inr clinicMap \<Rightarrow> distinct (map b_id (map snd clinicMap)))"
proof -
  let ?m = "fst (forEachPlace places [] s)"
  let ?m2 = "fst (forEachPlace places ?m s2)"
  have k: "keyed ?m" by (rule keyed_forEachPlace [OF keyed_Nil])
  have k2: "keyed ?m2" by (rule keyed_forEachPlace [OF k])
  have same: "map fst ?m2 = map fst ?m" by (rule forEachPlace_again)
  have d: "distinct (map b_id (map snd ?m))" using k by (rule keyed_ids)
  have "map b_id (map snd ?m) = map fst ?m" using k unfolding keyed_def by blast
  then have p: "set (map b_id (map snd ?m)) = set (List.map_filter parsedId places)"
    by (simp add: forEachPlace_keys)
  have l: "length ?m2 = length ?m"
    using same by (metis length_map)
  have i: "set (map b_id (map snd ?m2)) = set (map b_id (map snd ?m))"
    using k k2 same unfolding keyed_def by metis
  have c: "(case fst (cityLoop_all src cs [] s3) of
      Inl e \<Rightarrow> True
    | Inr clinicMap \<Rightarrow> distinct (map b_id (map snd clinicMap)))"
  proof (cases "fst (cityLoop_all src cs [] s3)")
    case (Inl e)
    then show ?thesis by simp
  next
    case (Inr clinicMap)
    with keyed_cityLoop_all [OF keyed_Nil, of src cs s3] have "keyed clinicMap" by simp
    then have "distinct (map b_id (map snd clinicMap))" by (rule keyed_ids)
    with Inr show ?thesis by (simp only: sum.case)
  qed
  show ?thesis using mergeIds_props [of gridIds cityIds] d p l i c by blast
qed

subsection \<open>The array the comprehensive script saves\<close>

text \<open>
  When both strategies and the detail loop return, the file of the state holds the array
  of the detail loop, run over the merged identifiers.
\<close>

lemma collectStateData_saved:
  "map_of US_STATES stateCode = Some info \<Longrightarrow>
   gridSearchForState cfg src today grid info w = (Inr gridIds, w1) \<Longrightarrow>
   citySearchForState cfg src today info w1 = (Inr cityIds, w2) \<Longrightarrow>
   detailLoop cfg dsrc today (mergeIds gridIds cityIds) [] w2 = (Inr found, w3) \<Longrightarrow>
   collectStateData cfg src dsrc today grid stateCode w =
     (Inr (), w3\<lparr>trace := trace w3 @ [WriteFile (toLowerCase stateCode @ ''.json'') found]\<rparr>)"
  by (simp add: collectStateData_def)

lemma transformPlace_id: "transformPlace today p = Some c \<Longrightarrow> n_place_id c = placeId p"
  by (auto simp: transformPlace_def Let_def split: if_splits)

lemma detailLoop_distinct:
  assumes echo: "\<forall>pid n p. dsrc pid n = Detail p \<longrightarrow> placeId p = pid"
  shows "distinct ids \<Longrightarrow> distinct (map n_place_id found) \<Longrightarrow>
         set (map n_place_id found) \<inter> set ids = {} \<Longrightarrow>
         (case fst (detailLoop cfg dsrc today ids found w) of
            Inl e \<Rightarrow> True
          | Inr out \<Rightarrow> distinct (map n_place_id out))"
proof (induction ids arbitrary: found w)
  case Nil
  then show ?case by simp
next
  case (Cons pid rest)
  have rest: "distinct rest" "distinct (map n_place_id found)"
    "set (map n_place_id found) \<inter> set rest = {}"
    using Cons.prems by auto
  note keep = Cons.IH [OF rest]
  show ?case
  proof (cases "MAX_REQUESTS cfg \<le> TOTAL_REQUESTS w")
    case True
    then show ?thesis by (simp add: checkRequestLimit_def isLimit_def limitMessage_def)
  next
    case False
    define w2 where "w2 = (sleep (requestDelay cfg) (w\<lparr>TOTAL_REQUESTS := Suc (TOTAL_REQUESTS w)\<rparr>))
       \<lparr>trace := trace (sleep (requestDelay cfg) (w\<lparr>TOTAL_REQUESTS := Suc (TOTAL_REQUESTS w)\<rparr>)) @ [GetPlace pid]\<rparr>"
    have eq: "detailLoop cfg dsrc today (pid # rest) found w =
       (case dsrc pid (TOTAL_REQUESTS w2) of
                DetailRejected msg \<Rightarrow>
                  if isLimit msg then (Inl msg, w2) else detailLoop cfg dsrc today rest found w2
              | DetailStatus st \<Rightarrow> detailLoop cfg dsrc today rest found w2
              | Detail p \<Rightarrow>
                  (let (ok, w3) = isDermatologyClinic w2 p
                   in if ok
                      then (case transformPlace today p of
                              None \<Rightarrow> detailLoop cfg dsrc today rest found w3
                            | Some c \<Rightarrow> detailLoop cfg dsrc today rest (found @ [c]) w3)
                      else detailLoop cfg dsrc today rest found w3))"
      unfolding w2_def using False by (simp add: checkRequestLimit_def Let_def)
    show ?thesis
    proof (cases "dsrc pid (TOTAL_REQUESTS w2)")
      case (DetailRejected msg)
      then show ?thesis using eq keep [of w2] by simp
    next
      case (DetailStatus st)
      then show ?thesis using eq keep [of w2] by simp
    next
      case (Detail p)
      with echo have idp: "placeId p = pid" by blast
      obtain ok w3 where cl: "isDermatologyClinic w2 p = (ok, w3)" by (cases "isDermatologyClinic w2 p")
      show ?thesis
      proof (cases "ok \<and> transformPlace today p \<noteq> None")
        case False
        then show ?thesis using eq Detail cl keep [of w3] by (auto split: option.splits)
      next
        case True
        then obtain c where c: "transformPlace today p = Some c" by auto
        from transformPlace_id [OF c] idp have cid: "n_place_id c = pid" by simp
        have 1: "distinct (map n_place_id (found @ [c]))"
          using Cons.prems cid by auto
        have 2: "set (map n_place_id (found @ [c])) \<inter> set rest = {}"
          using Cons.prems cid by auto
        from Cons.IH [OF rest(1) 1 2, of w3]
        show ?thesis using eq Detail cl True c by simp
      qed
    qed
  qed
qed

text \<open>
  The array the comprehensive script saves has one detail request behind each clinic. When
  the source answers a request with a place that has the identifier asked for, the
  clinics of the array have distinct identifiers.
\<close>

lemma saved_clinics_distinct:
  assumes "\<forall>pid n p. dsrc pid n = Detail p \<longrightarrow> placeId p = pid"
  shows "case fst (detailLoop cfg dsrc today (mergeIds gridIds cityIds) [] w) of
            Inl e \<Rightarrow> True
          | Inr out \<Rightarrow> distinct (map n_place_id out)"
  using mergeIds_props [of gridIds cityIds]
  by (intro detailLoop_distinct [OF assms]) simp_all

lemma placeAddress_pacificDerm:
  "placeAddress (pacificDerm ident) =
     \<lparr> ac_state_code = Some ''CA'', ac_city = None, ac_postal_code = None,
       ac_country_code = Some ''US'' \<rparr>"
  by (simp add: placeAddress_def pacificDerm_def placeAt_def parseAddressComponents_def
      getComponent_def)

lemma searchText_pacificDerm:
  "searchText (pacificDerm ident) = ''pacific dermatology  doctor health''"
  by (simp add: searchText_def placeName_def placeWebsite_def placeTypesText_def
      pacificDerm_def placeAt_def toLowerCase_def lowerChar_def)

lemma placeTypesText_pacificDerm:
  "placeTypesText (pacificDerm ident) = ''doctor health''"
  by (simp add: placeTypesText_def pacificDerm_def placeAt_def toLowerCase_def lowerChar_def)

lemma pacificDerm_accepted: "isDermatologyClinic cs (pacificDerm ident) = (True, cs)"
proof -
  have a: "\<not> foreignCountry (placeAddress (pacificDerm ident))"
    by (simp add: placeAddress_pacificDerm foreignCountry_def)
  have b: "\<not> invalidState (placeAddress (pacificDerm ident))"
    by (simp add: placeAddress_pacificDerm invalidState_def VALID_US_STATES_def
        US_STATES_keys_eq)
  have c: "\<not> list_ex (str_includes (searchText (pacificDerm ident))) excludeTerms"
    by (simp add: searchText_pacificDerm excludeTerms_def)
  have d: "\<not> str_includes (placeTypesText (pacificDerm ident)) ''skin_care_clinic''"
    by (simp add: placeTypesText_pacificDerm)
  have e: "list_ex (str_includes (searchText (pacificDerm ident))) coreTerms"
    by (simp add: searchText_pacificDerm coreTerms_def)
  show ?thesis using a b c d e by (simp add: isDermatologyClinic_def Let_def)
qed

lemma pacificDerm_transformed:
  "\<exists>c. transformPlace today (pacificDerm ident) = Some c \<and> n_place_id c = Some ident"
proof -
  have a: "\<not> foreignCountry (placeAddress (pacificDerm ident))"
    by (simp add: placeAddress_pacificDerm foreignCountry_def)
  have b: "\<not> invalidState (placeAddress (pacificDerm ident))"
    by (simp add: placeAddress_pacificDerm invalidState_def VALID_US_STATES_def
        US_STATES_keys_eq)
  have "placeId (pacificDerm ident) = Some ident" by (simp add: pacificDerm_def)
  with a b show ?thesis by (simp add: transformPlace_def Let_def)
qed

text \<open>
  Under the budget, a detail request that \<open>currentListing\<close> answers pushes the clinic of
  the answer, whatever identifier was asked for.
\<close>

lemma detailLoop_currentListing:
  "TOTAL_REQUESTS w < MAX_REQUESTS cfg \<Longrightarrow>
   detailLoop cfg currentListing today (pid # rest) found w =
     detailLoop cfg currentListing today rest
       (found @ [the (transformPlace today (pacificDerm ''ChIJ-new''))])
       ((sleep (requestDelay cfg) (w\<lparr>TOTAL_REQUESTS := TOTAL_REQUESTS w + 1\<rparr>))
          \<lparr>trace := trace (sleep (requestDelay cfg) (w\<lparr>TOTAL_REQUESTS := TOTAL_REQUESTS w + 1\<rparr>)) @
             [GetPlace pid]\<rparr>)"
  using pacificDerm_transformed [of today "''ChIJ-new''"]
  by (auto simp add: checkRequestLimit_def currentListing_def pacificDerm_accepted Let_def)

lemma detailLoop_currentListing_all:
  "TOTAL_REQUESTS w + length ids \<le> MAX_REQUESTS cfg \<Longrightarrow>
   fst (detailLoop cfg currentListing today ids found w) =
     Inr (found @ replicate (length ids) (the (transformPlace today (pacificDerm ''ChIJ-new''))))"
proof (induction ids arbitrary: found w)
  case Nil
  show ?case by simp
next
  case (Cons pid rest)
  from Cons.prems have lt: "TOTAL_REQUESTS w < MAX_REQUESTS cfg" by simp
  show ?case
    unfolding detailLoop_currentListing [OF lt]
    using Cons.prems by (subst Cons.IH) (simp_all add: sleep_def replicate_append_same)
qed

text \<open>
  C4. The comprehensive script merges the identifiers of its two strategies into the set
  \<open>allClinicIds\<close>, makes one detail request for each of them and pushes the clinic of
  every accepted answer onto the array it saves; the array has no key (the map
  \<open>clinicsById\<close> that the function declares is never written to), and the \<open>place_id\<close> of
  a clinic is the identifier in the answer, not the one asked for. The grid search has
  found a practice under the identifier \<open>ChIJ-old\<close> and the city search under
  \<open>ChIJ-new\<close>; the set holds both, the source answers both detail requests with the
  practice under \<open>ChIJ-new\<close>, and the array that is saved holds two clinics with the
  \<open>place_id\<close> \<open>ChIJ-new\<close>. The claim has no two records with the same \<open>place_id\<close> in
  the resulting collection.
\<close>

theorem saved_clinics_repeat_place_id:
  "mergeIds [Some ''ChIJ-old''] [Some ''ChIJ-new''] = [Some ''ChIJ-old'', Some ''ChIJ-new''] \<and>
   savedIds (fst (detailLoop defaults currentListing ''2025-01-15''
                    (mergeIds [Some ''ChIJ-old''] [Some ''ChIJ-new'']) [] startWorld)) =
     [Some ''ChIJ-new'', Some ''ChIJ-new'']"
proof -
  have m: "mergeIds [Some ''ChIJ-old''] [Some ''ChIJ-new''] = [Some ''ChIJ-old'', Some ''ChIJ-new'']"
    by (simp add: mergeIds_def setAdd_def)
  obtain c where c: "transformPlace ''2025-01-15'' (pacificDerm ''ChIJ-new'') = Some c"
    and cid: "n_place_id c = Some ''ChIJ-new''"
    using pacificDerm_transformed by blast
  have "TOTAL_REQUESTS startWorld + length [Some ''ChIJ-old'', Some ''ChIJ-new''] \<le>
        MAX_REQUESTS defaults"
    by (simp add: defaults_def startWorld_def)
  from detailLoop_currentListing_all [OF this, of "''2025-01-15''" "[]"]
  have "fst (detailLoop defaults currentListing ''2025-01-15''
               [Some ''ChIJ-old'', Some ''ChIJ-new''] [] startWorld) = Inr [c, c]"
    by (simp add: c numeral_2_eq_2)
  then show ?thesis using cid by (simp add: m savedIds_def)
qed

section \<open>The request budget\<close>

lemma majorCities_nonempty: "map_of US_STATES c = Some info \<Longrightarrow> majorCities info \<noteq> []"
  by (auto simp: US_STATES_def split: if_splits)

lemma isLimit_limitMessage: "isLimit limitMessage"
  by (simp add: isLimit_def limitMessage_def)

lemma checkRequestLimit_at_limit:
  "MAX_REQUESTS cfg \<le> TOTAL_REQUESTS w \<Longrightarrow> checkRequestLimit cfg w = (Inl limitMessage, w)"
  by (simp add: checkRequestLimit_def)

lemma gridLoop_at_limit:
  "MAX_REQUESTS cfg \<le> TOTAL_REQUESTS w \<Longrightarrow>
   gridLoop cfg src today points ids w = (if points = [] then (Inr ids, w) else (Inl limitMessage, w))"
  by (cases points)
     (simp_all add: nearbySearchAtPoint_def checkRequestLimit_at_limit isLimit_limitMessage)

lemma textSearchCity_at_limit:
  "MAX_REQUESTS cfg \<le> TOTAL_REQUESTS w \<Longrightarrow>
   textSearchCity cfg src today cityName stateCode w = (Inl limitMessage, w)"
  by (simp add: textSearchCity_def cityQueries_def pageLoop.simps fetchPage_def
      checkRequestLimit_at_limit)

lemma cityLoop_at_limit:
  "MAX_REQUESTS cfg \<le> TOTAL_REQUESTS w \<Longrightarrow> cs \<noteq> [] \<Longrightarrow>
   cityLoop cfg src today stateCode cs ids w = (Inl limitMessage, w)"
  by (cases cs) (simp_all add: textSearchCity_at_limit isLimit_limitMessage)

lemma collectStateData_at_limit:
  assumes "MAX_REQUESTS cfg \<le> TOTAL_REQUESTS w" and "map_of US_STATES stateCode = Some info"
  shows "collectStateData cfg src dsrc today grid stateCode w = (Inl limitMessage, w)"
proof -
  from assms(2) have ne: "majorCities info \<noteq> []" by (rule majorCities_nonempty)
  have c: "citySearchForState cfg src today info w = (Inl limitMessage, w)"
    using assms(1) ne by (simp add: citySearchForState_def cityLoop_at_limit)
  have g: "gridSearchForState cfg src today grid info w =
             (if grid (bounds info) = [] then (Inr [], w) else (Inl limitMessage, w))"
    using assms(1) by (simp add: gridSearchForState_def gridLoop_at_limit)
  show ?thesis
    by (simp add: collectStateData_def assms(2) g c isLimit_limitMessage)
qed

text \<open>
  The comprehensive script does halt: with the counter at the limit, the first request
  of a state raises the budget error, every handler passes it on, and \<open>main\<close> leaves its
  loop; the run does nothing more.
\<close>

lemma mainLoop_at_limit:
  "MAX_REQUESTS cfg \<le> TOTAL_REQUESTS w \<Longrightarrow> mainLoop cfg src dsrc today grid codes w = w"
  by (induction codes) (auto simp: collectStateData_at_limit isLimit_limitMessage split: option.splits)

lemma inBudget_fetchPage: "inBudget cfg w \<Longrightarrow> inBudget cfg (snd (fetchPage cfg src today query tok w))"
proof -
  assume b: "inBudget cfg w"
  obtain r w1 where fp: "fetchPage cfg src today query tok w = (r, w1)"
    by (cases "fetchPage cfg src today query tok w")
  from fetchPage_cases [OF fp] b show ?thesis by (auto simp: fp inBudget_def)
qed

lemma inBudget_pageLoop:
  "inBudget cfg w \<Longrightarrow> inBudget cfg (snd (pageLoop cfg src today query tok pages acc w))"
proof (induction cfg src today query tok pages acc w rule: pageLoop.induct)
  case (1 cfg src today query pageToken pages allClinics w)
  obtain r w1 where fp: "fetchPage cfg src today query pageToken w = (r, w1)"
    by (cases "fetchPage cfg src today query pageToken w")
  from inBudget_fetchPage [OF "1.prems", of src today query pageToken] fp
  have b1: "inBudget cfg w1" by simp
  show ?case
  proof (cases r)
    case (Inl e)
    then show ?thesis using pageLoop_unfold [OF fp, of pages allClinics] b1 by simp
  next
    case (Inr np)
    obtain "next" places where np: "np = (next, places)" by (cases np)
    show ?thesis
    proof (cases "truthy next \<and> pages + 1 < 3")
      case True
      from "1.IH" [OF fp [symmetric] Inr np [symmetric] True b1]
      show ?thesis using pageLoop_unfold [OF fp, of pages allClinics] Inr np True by simp
    next
      case False
      then have "pageLoop cfg src today query pageToken pages allClinics w =
                   (Inr (allClinics @ places), w1)"
        using pageLoop_unfold [OF fp, of pages allClinics] Inr np by auto
      then show ?thesis using b1 by simp
    qed
  qed
qed

lemma inBudget_queryLoop:
  "inBudget cfg w \<Longrightarrow> inBudget cfg (snd (queryLoop cfg src today queries acc w))"
proof (induction queries arbitrary: acc w)
  case Nil
  then show ?case by simp
next
  case (Cons query queries)
  obtain r w1 where pl: "pageLoop cfg src today query None 0 acc w = (r, w1)"
    by (cases "pageLoop cfg src today query None 0 acc w")
  from inBudget_pageLoop [OF Cons.prems, of src today query None 0 acc] pl
  have b1: "inBudget cfg w1" by simp
  show ?case using pl b1 Cons.IH [OF b1] by (cases r) simp_all
qed

lemma inBudget_textSearchCity:
  "inBudget cfg w \<Longrightarrow> inBudget cfg (snd (textSearchCity cfg src today cityName stateCode w))"
  by (simp add: textSearchCity_def inBudget_queryLoop)

lemma inBudget_cityLoop:
  "inBudget cfg w \<Longrightarrow> inBudget cfg (snd (cityLoop cfg src today stateCode cs ids w))"
proof (induction cs arbitrary: ids w)
  case Nil
  then show ?case by simp
next
  case (Cons c cs)
  obtain r w1 where ts: "textSearchCity cfg src today c stateCode w = (r, w1)"
    by (cases "textSearchCity cfg src today c stateCode w")
  from inBudget_textSearchCity [OF Cons.prems, of src today c stateCode] ts
  have b1: "inBudget cfg w1" by simp
  show ?case using ts b1 Cons.IH [OF b1] by (cases r) simp_all
qed

lemma inBudget_nearbySearchAtPoint:
  "inBudget cfg w \<Longrightarrow> inBudget cfg (snd (nearbySearchAtPoint cfg src today lat lng w))"
  unfolding nearbySearchAtPoint_def checkRequestLimit_def Let_def inBudget_def
  by (auto simp: sleep_def split: searchResponse.splits prod.splits if_splits
      dest!: acceptedClinics_traceD)

lemma inBudget_gridLoop:
  "inBudget cfg w \<Longrightarrow> inBudget cfg (snd (gridLoop cfg src today points ids w))"
proof (induction points arbitrary: ids w)
  case Nil
  then show ?case by simp
next
  case (Cons pt points)
  obtain r w1 where ns: "nearbySearchAtPoint cfg src today (fst pt) (snd pt) w = (r, w1)"
    by (cases "nearbySearchAtPoint cfg src today (fst pt) (snd pt) w")
  from inBudget_nearbySearchAtPoint [OF Cons.prems, of src today "fst pt" "snd pt"] ns
  have b1: "inBudget cfg w1" by simp
  show ?case using ns b1 Cons.IH [OF b1] by (cases r) simp_all
qed

lemma inBudget_detailLoop:
  "inBudget cfg w \<Longrightarrow> inBudget cfg (snd (detailLoop cfg dsrc today ids found w))"
proof (induction ids arbitrary: found w)
  case Nil
  then show ?case by simp
next
  case (Cons pid rest)
  show ?case
  proof (cases "MAX_REQUESTS cfg \<le> TOTAL_REQUESTS w")
    case True
    then show ?thesis using Cons.prems
      by (simp add: checkRequestLimit_def isLimit_def limitMessage_def)
  next
    case False
    define w2 where "w2 = (sleep (requestDelay cfg) (w\<lparr>TOTAL_REQUESTS := Suc (TOTAL_REQUESTS w)\<rparr>))
       \<lparr>trace := trace (sleep (requestDelay cfg) (w\<lparr>TOTAL_REQUESTS := Suc (TOTAL_REQUESTS w)\<rparr>)) @ [GetPlace pid]\<rparr>"
    have b2: "inBudget cfg w2" using False by (simp add: w2_def inBudget_def sleep_def)
    have b3: "inBudget cfg (snd (isDermatologyClinic w2 p))" for p
      using b2 isDermatologyClinic_trace [of w2 p] by (simp add: inBudget_def)
    have eq: "detailLoop cfg dsrc today (pid # rest) found w =
       (case dsrc pid (TOTAL_REQUESTS w2) of
                DetailRejected msg \<Rightarrow>
                  if isLimit msg then (Inl msg, w2) else detailLoop cfg dsrc today rest found w2
              | DetailStatus st \<Rightarrow> detailLoop cfg dsrc today rest found w2
              | Detail p \<Rightarrow>
                  (let (ok, w3) = isDermatologyClinic w2 p
                   in if ok
                      then (case transformPlace today p of
                              None \<Rightarrow> detailLoop cfg dsrc today rest found w3
                            | Some c \<Rightarrow> detailLoop cfg dsrc today rest (found @ [c]) w3)
                      else detailLoop cfg dsrc today rest found w3))"
      unfolding w2_def using False by (simp add: checkRequestLimit_def Let_def)
    show ?thesis
    proof (cases "dsrc pid (TOTAL_REQUESTS w2)")
      case (DetailRejected msg)
      then show ?thesis using eq b2 Cons.IH [OF b2] by simp
    next
      case (DetailStatus st)
      then show ?thesis using eq Cons.IH [OF b2] by simp
    next
      case (Detail p)
      obtain ok w3 where cl: "isDermatologyClinic w2 p = (ok, w3)" by (cases "isDermatologyClinic w2 p")
      with b3 [of p] have "inBudget cfg w3" by simp
      then show ?thesis using eq Detail cl Cons.IH by (simp split: option.splits)
    qed
  qed
qed


lemma inBudget_collectStateData:
  assumes b: "inBudget cfg w"
  shows "inBudget cfg (snd (collectStateData cfg src dsrc today grid stateCode w))"
proof (cases "map_of US_STATES stateCode")
  case None
  then show ?thesis using b by (simp add: collectStateData_def)
next
  case (Some info)
  obtain rg w1 where g: "gridSearchForState cfg src today grid info w = (rg, w1)"
    by (cases "gridSearchForState cfg src today grid info w")
  from inBudget_gridLoop [OF b, of src today "grid (bounds info)" "[]"] g
  have b1: "inBudget cfg w1" by (simp add: gridSearchForState_def)
  obtain rc w2 where c: "citySearchForState cfg src today info w1 = (rc, w2)"
    by (cases "citySearchForState cfg src today info w1")
  from inBudget_cityLoop [OF b1, of src today "code info" "majorCities info" "[]"] c
  have b2: "inBudget cfg w2" by (simp add: citySearchForState_def)
  have d: "inBudget cfg (snd (case detailLoop cfg dsrc today ids [] w2 of
                     (Inl e3, w3) \<Rightarrow> (Inl e3, w3)
                   | (Inr found, w3) \<Rightarrow>
                       (Inr (), w3\<lparr>trace := trace w3 @
                          [WriteFile (toLowerCase stateCode @ ''.json'') found]\<rparr>)))" for ids
    using inBudget_detailLoop [OF b2, of dsrc today ids "[]"]
    by (auto simp: inBudget_def split: prod.splits sum.splits)
  show ?thesis
    unfolding collectStateData_def using Some g c b1 b2 d
    by (auto split: sum.splits)
qed

text \<open>
  In the comprehensive script the counter never passes the limit: a request is counted
  only when the counter is below it.
\<close>

lemma inBudget_mainLoop:
  "inBudget cfg w \<Longrightarrow> inBudget cfg (mainLoop cfg src dsrc today grid codes w)"
proof (induction codes arbitrary: w)
  case Nil
  then show ?case by simp
next
  case (Cons c codes)
  obtain r w1 where cs: "collectStateData cfg src dsrc today grid c w = (r, w1)"
    by (cases "collectStateData cfg src dsrc today grid c w")
  from inBudget_collectStateData [OF Cons.prems, of src dsrc today grid c] cs
  have b1: "inBudget cfg w1" by simp
  show ?case using cs b1 Cons.prems Cons.IH [OF b1] Cons.IH [OF Cons.prems]
    by (auto split: option.splits sum.splits)
qed

lemma queryLoop_all_fail:
  "queryLoop_all allFail queries m s =
     (if totalRequests s + length queries < MAX_REQUESTS_all
      then (Inr m, s\<lparr>totalRequests := totalRequests s + length queries\<rparr>)
      else if queries = [] then (Inr m, s)
      else (Inl limitError, s\<lparr>totalRequests := max MAX_REQUESTS_all (totalRequests s + 1)\<rparr>))"
proof (induction queries arbitrary: s)
  case Nil
  show ?case by simp
next
  case (Cons query queries)
  show ?case
  proof (cases "totalRequests s + 1 \<ge> MAX_REQUESTS_all")
    case True
    then show ?thesis by (simp add: makeRequest_def limitError_def max_def)
  next
    case False
    then have mr: "makeRequest s = (Inr (), s\<lparr>totalRequests := totalRequests s + 1\<rparr>)"
      by (simp add: makeRequest_def)
    have "queryLoop_all allFail (query # queries) m s =
          queryLoop_all allFail queries m (s\<lparr>totalRequests := totalRequests s + 1\<rparr>)"
      by (simp add: mr allFail_def)
    also note Cons.IH [of "s\<lparr>totalRequests := totalRequests s + 1\<rparr>"]
    finally show ?thesis using False by (auto simp: max_def)
  qed
qed

lemma cityLoop_all_fail:
  "cityLoop_all allFail cs m s =
     (if totalRequests s + 3 * length cs < MAX_REQUESTS_all
      then (Inr m, s\<lparr>totalRequests := totalRequests s + 3 * length cs\<rparr>)
      else if cs = [] then (Inr m, s)
      else (Inl limitError, s\<lparr>totalRequests := max MAX_REQUESTS_all (totalRequests s + 1)\<rparr>))"
proof (induction cs arbitrary: s)
  case Nil
  show ?case by simp
next
  case (Cons c cs)
  have q: "length queries_all = 3" "queries_all \<noteq> []" by (simp_all add: queries_all_def)
  show ?case
  proof (cases "totalRequests s + 3 < MAX_REQUESTS_all")
    case False
    then show ?thesis by (simp add: queryLoop_all_fail q)
  next
    case True
    then have "cityLoop_all allFail (c # cs) m s =
               cityLoop_all allFail cs m (s\<lparr>totalRequests := totalRequests s + 3\<rparr>)"
      by (simp add: queryLoop_all_fail q)
    also note Cons.IH [of "s\<lparr>totalRequests := totalRequests s + 3\<rparr>"]
    finally show ?thesis using True by (auto simp: max_def)
  qed
qed

lemma collectStateData_all_fail:
  assumes "cities info \<noteq> []"
  shows "collectStateData_all allFail c info w =
     (if totalRequests w + 3 * length (cities info) < MAX_REQUESTS_all
      then (Inr False, w\<lparr>totalRequests := totalRequests w + 3 * length (cities info)\<rparr>)
      else (Inl limitError, w\<lparr>totalRequests := max MAX_REQUESTS_all (totalRequests w + 1)\<rparr>))"
  using assms by (simp add: collectStateData_all_def cityLoop_all_fail)

lemma mainLoop_all_step:
  assumes "map_of ALL_STATES c = Some info" and "cities info \<noteq> []"
  shows "mainLoop_all allFail (c # rest) w =
     mainLoop_all allFail rest
       (w\<lparr>totalRequests :=
            (if totalRequests w + 3 * length (cities info) < MAX_REQUESTS_all
             then totalRequests w + 3 * length (cities info)
             else max MAX_REQUESTS_all (totalRequests w + 1)),
          statesFailed := statesFailed w @ [c]\<rparr>)"
  using assms by (simp add: collectStateData_all_fail)

lemma mainLoop_all_replicate:
  assumes "map_of ALL_STATES c = Some info" and "cities info \<noteq> []"
    and "totalRequests w + n * (3 * length (cities info)) < MAX_REQUESTS_all"
  shows "mainLoop_all allFail (replicate n c @ rest) w =
     mainLoop_all allFail rest
       (w\<lparr>totalRequests := totalRequests w + n * (3 * length (cities info)),
          statesFailed := statesFailed w @ replicate n c\<rparr>)"
  using assms(3)
proof (induction n arbitrary: w)
  case 0
  show ?case by simp
next
  case (Suc n)
  let ?k = "3 * length (cities info)"
  from Suc.prems have lt: "totalRequests w + ?k < MAX_REQUESTS_all" by simp
  let ?w1 = "w\<lparr>totalRequests := totalRequests w + ?k, statesFailed := statesFailed w @ [c]\<rparr>"
  have "mainLoop_all allFail (replicate (Suc n) c @ rest) w = mainLoop_all allFail (replicate n c @ rest) ?w1"
    using mainLoop_all_step [OF assms(1,2), of "replicate n c @ rest" w] lt by simp
  also have "\<dots> = mainLoop_all allFail rest
       (?w1\<lparr>totalRequests := totalRequests ?w1 + n * ?k,
          statesFailed := statesFailed ?w1 @ replicate n c\<rparr>)"
    using Suc.prems by (intro Suc.IH) simp
  also have "\<dots> = mainLoop_all allFail rest
       (w\<lparr>totalRequests := totalRequests w + Suc n * ?k,
          statesFailed := statesFailed w @ replicate (Suc n) c\<rparr>)"
    by (simp add: replicate_app_Cons_same add.assoc)
  finally show ?case .
qed

lemma CA_info: "\<exists>info. map_of ALL_STATES ''CA'' = Some info \<and> length (cities info) = 25"
  by (simp add: ALL_STATES_def)

lemma AK_info: "\<exists>info. map_of ALL_STATES ''AK'' = Some info \<and> length (cities info) = 5"
  by (simp add: ALL_STATES_def)

text \<open>
  C3. The batch script is started with the state CA 667 times and then AK, and every
  request is answered with the status 500. The requests of the 667 entries bring the
  counter to the limit of 50000: the budget error leaves \<open>collectStateData\<close>. The handler
  in \<open>main\<close> records the state as failed and the loop goes on: AK is started, its first
  \<open>makeRequest\<close> counts request 50001 and fails, and AK is recorded as failed. The run is
  not halted at the limit.
\<close>

theorem batch_run_goes_on:
  "totalRequests (mainLoop_all allFail (replicate 667 ''CA'') startBatch) = MAX_REQUESTS_all \<and>
   mainLoop_all allFail (replicate 667 ''CA'' @ [''AK'']) startBatch =
     \<lparr> totalRequests = 50001, rejectedNonUS = 0, rejectedNonDerm = 0, statesCompleted = [],
       statesFailed = replicate 667 ''CA'' @ [''AK''], files = [] \<rparr>"
proof -
  obtain ca where ca: "map_of ALL_STATES ''CA'' = Some ca" "length (cities ca) = 25"
    using CA_info by blast
  obtain ak where ak: "map_of ALL_STATES ''AK'' = Some ak" "length (cities ak) = 5"
    using AK_info by blast
  from ca ak have ne: "cities ca \<noteq> []" "cities ak \<noteq> []" by auto
  have "replicate (666 + 1) ''CA'' = replicate 666 ''CA'' @ replicate 1 ''CA''"
    by (rule replicate_add)
  then have r: "replicate 667 ''CA'' = replicate 666 ''CA'' @ [''CA'']"
    by simp
  let ?w666 = "startBatch\<lparr>totalRequests := 49950, statesFailed := replicate 666 ''CA''\<rparr>"
  have a: "mainLoop_all allFail (replicate 666 ''CA'' @ rest) startBatch = mainLoop_all allFail rest ?w666" for rest
    using mainLoop_all_replicate [OF ca(1) ne(1), of startBatch 666 rest]
    by (simp add: ca(2) startBatch_def MAX_REQUESTS_all_def)
  let ?w667 = "startBatch\<lparr>totalRequests := 50000, statesFailed := replicate 667 ''CA''\<rparr>"
  have b: "mainLoop_all allFail (''CA'' # rest) ?w666 = mainLoop_all allFail rest ?w667" for rest
    using mainLoop_all_step [OF ca(1) ne(1), of rest ?w666]
    by (simp add: ca(2) startBatch_def MAX_REQUESTS_all_def r)
  let ?w668 = "startBatch\<lparr>totalRequests := 50001, statesFailed := replicate 667 ''CA'' @ [''AK'']\<rparr>"
  have c: "mainLoop_all allFail (''AK'' # rest) ?w667 = mainLoop_all allFail rest ?w668" for rest
    using mainLoop_all_step [OF ak(1) ne(2), of rest ?w667]
    by (simp add: ak(2) startBatch_def MAX_REQUESTS_all_def)
  have 1: "mainLoop_all allFail (replicate 667 ''CA'') startBatch = ?w667"
    using a [of "[''CA'']"] b [of "[]"] by (simp add: r)
  have 2: "mainLoop_all allFail (replicate 667 ''CA'' @ [''AK'']) startBatch = ?w668"
    using a [of "[''CA'', ''AK'']"] b [of "[''AK'']"] c [of "[]"] by (simp add: r)
  show ?thesis
    unfolding 1 2 by (simp add: startBatch_def MAX_REQUESTS_all_def)
qed

end
